theory Spec2Isabelle
  imports Main "HOL-Library.Word" "HOL-Library.AList"
begin

section \<open>The catalog manager of RMDB (sm_manager.cpp)\<close>

text \<open>
  The theory embeds \<^verbatim>\<open>src/rmdb/src/system/sm_manager.cpp\<close>: the class
  \<^verbatim>\<open>SmManager\<close> with its schema \<^verbatim>\<open>db_\<close>, its two handle registries
  \<^verbatim>\<open>fhs_\<close> and \<^verbatim>\<open>ihs_\<close>, and the operations on databases, tables and indexes.
  A trailing underscore is not a legal name in Isabelle, so \<^verbatim>\<open>db_\<close>, \<^verbatim>\<open>fhs_\<close>,
  \<^verbatim>\<open>ihs_\<close>, \<^verbatim>\<open>name_\<close> and \<^verbatim>\<open>tabs_\<close> lose it; the fields called
  \<^verbatim>\<open>name\<close>, \<^verbatim>\<open>cols\<close>, ... in several structs get the struct as a prefix.
\<close>

subsection \<open>Schema: ColDef, ColMeta, IndexMeta, TabMeta, DbMeta\<close>

text \<open>
  A C++ \<^verbatim>\<open>int\<close> is a 32-bit word; addition wraps. The scalar type tag \<^verbatim>\<open>ColType\<close>
  is declared outside the file.
\<close>

type_synonym cint = "32 word"

datatype ColType = TYPE_INT | TYPE_FLOAT | TYPE_STRING

record ColDef =
  def_name :: string
  def_type :: ColType
  def_len :: cint

record ColMeta =
  col_tab_name :: string
  col_name :: string
  col_type :: ColType
  col_len :: cint
  col_offset :: cint
  col_index :: bool

record IndexMeta =
  ix_tab_name :: string
  col_tot_len :: cint
  col_num :: cint
  ix_cols :: "ColMeta list"

record TabMeta =
  tab_name :: string
  cols :: "ColMeta list"
  indexes :: "IndexMeta list"

text \<open>
  \<^verbatim>\<open>DbMeta::tabs_\<close> is a \<^verbatim>\<open>std::map\<close> from table names to \<^verbatim>\<open>TabMeta\<close>. It is an
  association list here, since \<^verbatim>\<open>open_db\<close> iterates over it; the loops of the
  model follow the order of the list.
\<close>

record DbMeta =
  db_name :: string
  tabs :: "(string \<times> TabMeta) list"

subsection \<open>Containers: std::map and std::unordered_map\<close>

text \<open>
  \<^verbatim>\<open>m[k] = v\<close> is \<^const>\<open>AList.update\<close>, \<^verbatim>\<open>m.erase(k)\<close> is \<^const>\<open>AList.delete\<close>,
  \<^verbatim>\<open>m.clear()\<close> is the empty list. \<^verbatim>\<open>m.emplace(k, v)\<close> inserts only when the key
  is absent. Reading \<^verbatim>\<open>m[k]\<close> inserts a value-initialised entry when the key is
  absent and returns it: the default is a parameter (a null pointer for the
  registries, an empty \<^verbatim>\<open>TabMeta\<close> for the schema).
\<close>

definition emplace :: "'k \<Rightarrow> 'v \<Rightarrow> ('k \<times> 'v) list \<Rightarrow> ('k \<times> 'v) list" where
  "emplace k v m = (case map_of m k of Some _ \<Rightarrow> m | None \<Rightarrow> m @ [(k, v)])"

definition subscript :: "'v \<Rightarrow> ('k \<times> 'v) list \<Rightarrow> 'k \<Rightarrow> 'v \<times> ('k \<times> 'v) list" where
  "subscript dflt m k = (case map_of m k of Some v \<Rightarrow> (v, m) | None \<Rightarrow> (dflt, m @ [(k, dflt)]))"

definition default_TabMeta :: TabMeta where
  "default_TabMeta = \<lparr>tab_name = [], cols = [], indexes = []\<rparr>"

subsection \<open>Errors\<close>

text \<open>
  The exceptions the file throws, and those of the absent \<^verbatim>\<open>sm_meta.h\<close> and
  metadata reader. All of them are \<^verbatim>\<open>std::exception\<close>s.
\<close>

datatype error =
    DatabaseExistsError string
  | DatabaseNotFoundError string
  | UnixError
  | TableExistsError string
  | TableNotFoundError string
  | IndexExistsError string "string list"
  | ColumnNotFoundError string
  | IndexNotFoundError string "string list"
  | MetaFormatError

subsection \<open>Schema lookups (sm\_meta.h)\<close>

text \<open>
  Modelled from the spec: \<^verbatim>\<open>DbMeta::is_table\<close>, \<^verbatim>\<open>DbMeta::get_table\<close>,
  \<^verbatim>\<open>TabMeta::get_col\<close> and \<^verbatim>\<open>TabMeta::get_index_meta\<close> are declared in
  \<^verbatim>\<open>sm_meta.h\<close>, which is not among the sources. A table is looked up by its
  name and is missing with \<^verbatim>\<open>TableNotFound\<close>; a column is looked up by its name
  and is missing with a \<^verbatim>\<open>ColumnNotFound\<close>-class error; an index definition is
  looked up by its ordered column names. \<^verbatim>\<open>get_index_meta\<close> returns an iterator,
  here the position in the list; the spec names no condition for a missing
  index definition, the model raises \<^verbatim>\<open>IndexNotFoundError\<close>.
\<close>

definition is_table :: "DbMeta \<Rightarrow> string \<Rightarrow> bool" where
  "is_table d tn = (case map_of (tabs d) tn of Some _ \<Rightarrow> True | None \<Rightarrow> False)"

definition get_table :: "DbMeta \<Rightarrow> string \<Rightarrow> error + TabMeta" where
  "get_table d tn = (case map_of (tabs d) tn of Some t \<Rightarrow> Inr t | None \<Rightarrow> Inl (TableNotFoundError tn))"

definition get_col :: "TabMeta \<Rightarrow> string \<Rightarrow> error + ColMeta" where
  "get_col t cn =
     (case find (\<lambda>c. col_name c = cn) (cols t) of
        Some c \<Rightarrow> Inr c
      | None \<Rightarrow> Inl (ColumnNotFoundError cn))"

fun index_pos :: "IndexMeta list \<Rightarrow> string list \<Rightarrow> nat option" where
  "index_pos [] ns = None"
| "index_pos (im # ims) ns =
     (if map col_name (ix_cols im) = ns then Some 0
      else map_option Suc (index_pos ims ns))"

definition get_index_meta :: "TabMeta \<Rightarrow> string list \<Rightarrow> error + nat" where
  "get_index_meta t ns =
     (case index_pos (indexes t) ns of
        Some i \<Rightarrow> Inr i
      | None \<Rightarrow> Inl (IndexNotFoundError (tab_name t) ns))"

text \<open>\<^verbatim>\<open>indexes.erase(it)\<close>: the element at the iterator's position is removed.\<close>

definition erase_at :: "nat \<Rightarrow> 'a list \<Rightarrow> 'a list" where
  "erase_at i xs = take i xs @ drop (Suc i) xs"

subsection \<open>Handles and collaborators\<close>

text \<open>
  Modelled from the spec: the index identity \<^verbatim>\<open>get_index_name\<close> of the index
  store is not among the sources. The identity of an index is the pair of the
  table name and the ordered list of column names, and the overload that takes
  column metadata projects to the names.
\<close>

type_synonym index_key = "string \<times> string list"

definition get_index_name :: "string \<Rightarrow> string list \<Rightarrow> index_key" where
  "get_index_name tn ns = (tn, ns)"

definition get_index_name_cols :: "string \<Rightarrow> ColMeta list \<Rightarrow> index_key" where
  "get_index_name_cols tn cs = get_index_name tn (map col_name cs)"

text \<open>
  A handle is opaque; the model lets it name the file it was opened on. The
  registries hold \<^verbatim>\<open>std::unique_ptr\<close>s: \<^const>\<open>None\<close> is the null pointer.
\<close>

datatype RmFileHandle = RmFileHandle string

datatype IxIndexHandle = IxIndexHandle index_key

text \<open>
  Every call the manager makes to the record store, the index store and the disk
  manager is recorded, in order, with its arguments.
\<close>

datatype call =
    RmCreateFile string cint
  | RmOpenFile string
  | RmCloseFile "RmFileHandle option"
  | RmDestroyFile string
  | IxCreateIndex string "ColMeta list"
  | IxOpenIndex string "ColMeta list"
  | IxCloseIndex "IxIndexHandle option"
  | IxDestroyIndex string "string list"
  | DiskCreateLogFile

subsection \<open>The file system\<close>

text \<open>
  A path is the list of directory names from the root. The file system holds the
  working directory of the process, the directories, the metadata file
  \<^verbatim>\<open>DB_META_NAME\<close> of each directory that has one, and the index files of each
  directory (what \<^verbatim>\<open>IxManager::exists\<close> asks about). The only files are the
  metadata, log, record and index files; no database is named as one of them.
\<close>

type_synonym path = "string list"

datatype meta_file = Parsable DbMeta | Malformed

record filesys =
  cwd :: path
  dirs :: "path list"
  meta_files :: "(path \<times> meta_file) list"
  ix_files :: "(path \<times> index_key) list"

text \<open>
  A database name is a path name for \<^verbatim>\<open>stat\<close>, \<^verbatim>\<open>chdir\<close> and the shell: it is
  cut at every \<^verbatim>\<open>/\<close> and followed component by component. An empty component
  and \<^verbatim>\<open>.\<close> stay in place, \<^verbatim>\<open>..\<close> goes to the parent (the root is its own
  parent), any other component must name a directory that exists. A name that
  starts with \<^verbatim>\<open>/\<close> is followed from the root, any other name from the working
  directory; the empty name names nothing.
\<close>

fun split_path :: "string \<Rightarrow> string list" where
  "split_path [] = [[]]"
| "split_path (c # cs) =
     (if c = CHR ''/'' then [] # split_path cs
      else (case split_path cs of [] \<Rightarrow> [[c]] | w # ws \<Rightarrow> (c # w) # ws))"

fun walk :: "path list \<Rightarrow> path \<Rightarrow> string list \<Rightarrow> path option" where
  "walk ds p [] = Some p"
| "walk ds p (c # cs) =
     (if c = [] \<or> c = ''.'' then walk ds p cs
      else if c = ''..'' then walk ds (butlast p) cs
      else if p @ [c] \<in> set ds then walk ds (p @ [c]) cs
      else None)"

definition start_dir :: "filesys \<Rightarrow> string \<Rightarrow> path" where
  "start_dir f n = (case n of [] \<Rightarrow> cwd f | c # _ \<Rightarrow> if c = CHR ''/'' then [] else cwd f)"

definition resolve :: "filesys \<Rightarrow> string \<Rightarrow> path option" where
  "resolve f n = (if n = [] then None else walk (dirs f) (start_dir f n) (split_path n))"

text \<open>\<^verbatim>\<open>SmManager::is_dir\<close>: \<^verbatim>\<open>stat\<close> succeeds and names a directory.\<close>

definition is_dir :: "string \<Rightarrow> filesys \<Rightarrow> bool" where
  "is_dir n f = (case resolve f n of Some _ \<Rightarrow> True | None \<Rightarrow> False)"

text \<open>\<^verbatim>\<open>chdir\<close> returns a negative value (here \<^const>\<open>None\<close>) when the directory is missing.\<close>

definition chdir :: "string \<Rightarrow> filesys \<Rightarrow> filesys option" where
  "chdir n f = (case resolve f n of Some p \<Rightarrow> Some (f\<lparr>cwd := p\<rparr>) | None \<Rightarrow> None)"

text \<open>
  \<^verbatim>\<open>system("mkdir " + db_name)\<close> and \<^verbatim>\<open>system("rm -r " + db_name)\<close> run in a
  child process: whatever the command does, the working directory of the manager
  is as before. The model is of names that the shell hands to the command as one
  word. \<^verbatim>\<open>mkdir\<close> makes the directory when the path before the last component
  leads to a directory and the last component is a new name there; in every
  other case it fails and nothing changes (\<^verbatim>\<open>system\<close> still returns its exit
  status, which is not negative).
\<close>

definition mkdir :: "string \<Rightarrow> filesys \<Rightarrow> filesys" where
  "mkdir n f =
     (case rev (filter (\<lambda>c. c \<noteq> []) (split_path n)) of
        [] \<Rightarrow> f
      | c # before \<Rightarrow>
          (if c = ''.'' \<or> c = ''..'' then f
           else (case walk (dirs f) (start_dir f n) (rev before) of
                   None \<Rightarrow> f
                 | Some p \<Rightarrow> if p @ [c] \<in> set (dirs f) then f else f\<lparr>dirs := dirs f @ [p @ [c]]\<rparr>)))"

definition below :: "path \<Rightarrow> path \<Rightarrow> bool" where
  "below p q = (take (length p) q = p)"

text \<open>
  \<^verbatim>\<open>rm -r\<close> removes the directory named and all it holds; it refuses a name
  whose last component is \<^verbatim>\<open>.\<close> or \<^verbatim>\<open>..\<close>.
\<close>

definition rm_r :: "string \<Rightarrow> filesys \<Rightarrow> filesys" where
  "rm_r n f =
     (case rev (filter (\<lambda>c. c \<noteq> []) (split_path n)) of
        [] \<Rightarrow> f
      | c # before \<Rightarrow>
          (if c = ''.'' \<or> c = ''..'' then f
           else (case resolve f n of
                   None \<Rightarrow> f
                 | Some p \<Rightarrow>
                     f\<lparr>dirs := filter (\<lambda>q. \<not> below p q) (dirs f),
                       meta_files := filter (\<lambda>e. \<not> below p (fst e)) (meta_files f),
                       ix_files := filter (\<lambda>e. \<not> below p (fst e)) (ix_files f)\<rparr>)))"

text \<open>
  Modelled from the spec: the metadata codec (\<^verbatim>\<open>operator<<\<close> and \<^verbatim>\<open>operator>>\<close>
  of \<^verbatim>\<open>DbMeta\<close>) is not among the sources. Writing replaces the metadata file of
  the working directory by the schema and round-trips; reading fails with a
  format error when the file is absent or cannot be parsed.
\<close>

definition write_meta :: "DbMeta \<Rightarrow> filesys \<Rightarrow> filesys" where
  "write_meta d f = f\<lparr>meta_files := AList.update (cwd f) (Parsable d) (meta_files f)\<rparr>"

definition read_meta :: "filesys \<Rightarrow> error + DbMeta" where
  "read_meta f =
     (case map_of (meta_files f) (cwd f) of
        Some (Parsable d) \<Rightarrow> Inr d
      | Some Malformed \<Rightarrow> Inl MetaFormatError
      | None \<Rightarrow> Inl MetaFormatError)"

subsection \<open>The manager's state\<close>

text \<open>
  The members \<^verbatim>\<open>db_\<close>, \<^verbatim>\<open>fhs_\<close> and \<^verbatim>\<open>ihs_\<close> of \<^verbatim>\<open>SmManager\<close>, and the
  world the manager acts on: the file system, the calls made to the
  collaborators so far, and the exceptions whose \<^verbatim>\<open>what()\<close> was printed on
  standard output.
\<close>

record SmManager =
  db :: DbMeta
  fhs :: "(string \<times> RmFileHandle option) list"
  ihs :: "(index_key \<times> IxIndexHandle option) list"
  fsys :: filesys
  calls :: "call list"
  out :: "error list"

text \<open>
  An operation that throws leaves the members as they are at the throw: the
  exception comes with that state.
\<close>

type_synonym outcome = "(error \<times> SmManager) + SmManager"

text \<open>
  Modelled from the spec: the record store (\<^verbatim>\<open>RmManager\<close>), the index store
  (\<^verbatim>\<open>IxManager\<close>) and the disk manager are not among the sources. They are
  consumed through their interface and assumed correct: a call is recorded and
  returns, the open calls return a handle that is not null, and the index store
  keeps the index files of the working directory, which \<^verbatim>\<open>exists\<close> reads,
  \<^verbatim>\<open>create_index\<close> extends and \<^verbatim>\<open>destroy_index\<close> reduces. The overloads on
  column metadata act on the column names.
\<close>

definition rm_create_file :: "string \<Rightarrow> cint \<Rightarrow> SmManager \<Rightarrow> SmManager" where
  "rm_create_file tn record_size s = s\<lparr>calls := calls s @ [RmCreateFile tn record_size]\<rparr>"

definition rm_open_file :: "string \<Rightarrow> SmManager \<Rightarrow> RmFileHandle option \<times> SmManager" where
  "rm_open_file tn s = (Some (RmFileHandle tn), s\<lparr>calls := calls s @ [RmOpenFile tn]\<rparr>)"

definition rm_close_file :: "RmFileHandle option \<Rightarrow> SmManager \<Rightarrow> SmManager" where
  "rm_close_file h s = s\<lparr>calls := calls s @ [RmCloseFile h]\<rparr>"

definition rm_destroy_file :: "string \<Rightarrow> SmManager \<Rightarrow> SmManager" where
  "rm_destroy_file tn s = s\<lparr>calls := calls s @ [RmDestroyFile tn]\<rparr>"

definition ix_exists :: "string \<Rightarrow> string list \<Rightarrow> SmManager \<Rightarrow> bool" where
  "ix_exists tn ns s = ((cwd (fsys s), get_index_name tn ns) \<in> set (ix_files (fsys s)))"

definition ix_create_index :: "string \<Rightarrow> ColMeta list \<Rightarrow> SmManager \<Rightarrow> SmManager" where
  "ix_create_index tn cs s =
     s\<lparr>fsys := (fsys s)\<lparr>ix_files :=
          List.insert (cwd (fsys s), get_index_name_cols tn cs) (ix_files (fsys s))\<rparr>,
       calls := calls s @ [IxCreateIndex tn cs]\<rparr>"

definition ix_open_index :: "string \<Rightarrow> ColMeta list \<Rightarrow> SmManager \<Rightarrow> IxIndexHandle option \<times> SmManager" where
  "ix_open_index tn cs s =
     (Some (IxIndexHandle (get_index_name_cols tn cs)), s\<lparr>calls := calls s @ [IxOpenIndex tn cs]\<rparr>)"

definition ix_close_index :: "IxIndexHandle option \<Rightarrow> SmManager \<Rightarrow> SmManager" where
  "ix_close_index h s = s\<lparr>calls := calls s @ [IxCloseIndex h]\<rparr>"

definition ix_destroy_index :: "string \<Rightarrow> string list \<Rightarrow> SmManager \<Rightarrow> SmManager" where
  "ix_destroy_index tn ns s =
     s\<lparr>fsys := (fsys s)\<lparr>ix_files :=
          removeAll (cwd (fsys s), get_index_name tn ns) (ix_files (fsys s))\<rparr>,
       calls := calls s @ [IxDestroyIndex tn ns]\<rparr>"

definition ix_destroy_index_cols :: "string \<Rightarrow> ColMeta list \<Rightarrow> SmManager \<Rightarrow> SmManager" where
  "ix_destroy_index_cols tn cs s = ix_destroy_index tn (map col_name cs) s"

definition disk_create_log_file :: "SmManager \<Rightarrow> SmManager" where
  "disk_create_log_file s = s\<lparr>calls := calls s @ [DiskCreateLogFile]\<rparr>"

section \<open>The operations of SmManager\<close>

subsection \<open>create\_db, drop\_db (lines 46-91)\<close>

text \<open>
  \<^verbatim>\<open>system\<close> returns a negative value only when no child process can be made;
  the model has the command run.
\<close>

definition create_db :: "string \<Rightarrow> SmManager \<Rightarrow> outcome" where
  "create_db n s =
     (if is_dir n (fsys s) then Inl (DatabaseExistsError n, s)
      else
        let s1 = s\<lparr>fsys := mkdir n (fsys s)\<rparr> in
        (case chdir n (fsys s1) of
           None \<Rightarrow> Inl (UnixError, s1)
         | Some f2 \<Rightarrow>
             (let s2 = s1\<lparr>fsys := write_meta \<lparr>db_name = n, tabs = []\<rparr> f2\<rparr>;
                  s3 = disk_create_log_file s2
              in (case chdir ''..'' (fsys s3) of
                    None \<Rightarrow> Inl (UnixError, s3)
                  | Some f4 \<Rightarrow> Inr (s3\<lparr>fsys := f4\<rparr>)))))"

definition drop_db :: "string \<Rightarrow> SmManager \<Rightarrow> outcome" where
  "drop_db n s =
     (if \<not> is_dir n (fsys s) then Inl (DatabaseNotFoundError n, s)
      else Inr (s\<lparr>fsys := rm_r n (fsys s)\<rparr>))"

subsection \<open>open\_db (lines 98-123)\<close>

text \<open>The inner loop: every index of a table is opened and registered with \<^verbatim>\<open>emplace\<close>.\<close>

fun open_indexes :: "string \<Rightarrow> IndexMeta list \<Rightarrow> SmManager \<Rightarrow> SmManager" where
  "open_indexes tn [] s = s"
| "open_indexes tn (index # rest) s =
     (let index_name = get_index_name_cols tn (ix_cols index);
          (h, s1) = ix_open_index tn (ix_cols index) s
      in open_indexes tn rest (s1\<lparr>ihs := emplace index_name h (ihs s1)\<rparr>))"

text \<open>
  The outer loop over \<^verbatim>\<open>db_.tabs_\<close>: \<^verbatim>\<open>fhs_[tab_name] = open_file(tab_name)\<close>,
  then the indexes of \<^verbatim>\<open>db_.tabs_[tab_name]\<close>, which is the entry's own value.
\<close>

fun open_tables :: "(string \<times> TabMeta) list \<Rightarrow> SmManager \<Rightarrow> SmManager" where
  "open_tables [] s = s"
| "open_tables (entry # rest) s =
     (let tn = fst entry;
          (h, s1) = rm_open_file tn s;
          s2 = s1\<lparr>fhs := AList.update tn h (fhs s1)\<rparr>
      in open_tables rest (open_indexes tn (indexes (snd entry)) s2))"

text \<open>The body of the \<^verbatim>\<open>try\<close> block.\<close>

definition open_db_try :: "string \<Rightarrow> SmManager \<Rightarrow> outcome" where
  "open_db_try n s =
     (case chdir n (fsys s) of
        None \<Rightarrow> Inl (UnixError, s)
      | Some f1 \<Rightarrow>
          (let s1 = s\<lparr>fsys := f1\<rparr> in
           (case read_meta (fsys s1) of
              Inl e \<Rightarrow> Inl (e, s1)
            | Inr d \<Rightarrow>
                (let s2 = s1\<lparr>db := d\<rparr>
                 in Inr (open_tables (tabs (db s2)) s2)))))"

text \<open>
  \<^verbatim>\<open>catch (std::exception &e)\<close> prints \<^verbatim>\<open>e.what()\<close> and falls through to the
  end of the function.
\<close>

definition open_db :: "string \<Rightarrow> SmManager \<Rightarrow> outcome" where
  "open_db n s =
     (case open_db_try n s of
        Inl (e, s1) \<Rightarrow> Inr (s1\<lparr>out := out s1 @ [e]\<rparr>)
      | Inr s1 \<Rightarrow> Inr s1)"

subsection \<open>flush\_meta, close\_db (lines 128-154)\<close>

definition flush_meta :: "SmManager \<Rightarrow> SmManager" where
  "flush_meta s = s\<lparr>fsys := write_meta (db s) (fsys s)\<rparr>"

fun close_files :: "(string \<times> RmFileHandle option) list \<Rightarrow> SmManager \<Rightarrow> SmManager" where
  "close_files [] s = s"
| "close_files (entry # rest) s = close_files rest (rm_close_file (snd entry) s)"

fun close_indexes :: "(index_key \<times> IxIndexHandle option) list \<Rightarrow> SmManager \<Rightarrow> SmManager" where
  "close_indexes [] s = s"
| "close_indexes (entry # rest) s = close_indexes rest (ix_close_index (snd entry) s)"

definition close_db :: "SmManager \<Rightarrow> SmManager" where
  "close_db s =
     (let s1 = flush_meta s;
          s2 = close_files (fhs s1) s1;
          s3 = close_indexes (ihs s2) s2
      in s3\<lparr>db := \<lparr>db_name = [], tabs = []\<rparr>, fhs := [], ihs := []\<rparr>)"

subsection \<open>desc\_table (lines 183-200)\<close>

text \<open>
  \<^verbatim>\<open>coltype2str\<close> is declared outside the file; the rows handed to the printer
  after the header are the result.
\<close>

definition coltype2str :: "ColType \<Rightarrow> string" where
  "coltype2str t = (case t of TYPE_INT \<Rightarrow> ''INT'' | TYPE_FLOAT \<Rightarrow> ''FLOAT'' | TYPE_STRING \<Rightarrow> ''STRING'')"

definition field_info :: "ColMeta \<Rightarrow> string list" where
  "field_info col = [col_name col, coltype2str (col_type col), if col_index col then ''YES'' else ''NO'']"

definition desc_table :: "string \<Rightarrow> SmManager \<Rightarrow> error + string list list" where
  "desc_table tn s =
     (case get_table (db s) tn of
        Inl e \<Rightarrow> Inl e
      | Inr tab \<Rightarrow> Inr (map field_info (cols tab)))"

subsection \<open>create\_table, drop\_table (lines 208-270)\<close>

text \<open>
  The loop over \<^verbatim>\<open>col_defs\<close>: the columns pushed so far and \<^verbatim>\<open>curr_offset\<close> are
  the accumulators.
\<close>

fun build_cols :: "string \<Rightarrow> ColDef list \<Rightarrow> cint \<Rightarrow> ColMeta list \<Rightarrow> ColMeta list \<times> cint" where
  "build_cols tn [] curr_offset acc = (acc, curr_offset)"
| "build_cols tn (col_def # rest) curr_offset acc =
     build_cols tn rest (curr_offset + def_len col_def)
       (acc @ [\<lparr>col_tab_name = tn, col_name = def_name col_def, col_type = def_type col_def,
                col_len = def_len col_def, col_offset = curr_offset, col_index = False\<rparr>])"

definition create_table :: "string \<Rightarrow> ColDef list \<Rightarrow> SmManager \<Rightarrow> outcome" where
  "create_table tn col_defs s =
     (if is_table (db s) tn then Inl (TableExistsError tn, s)
      else
        let (cs, curr_offset) = build_cols tn col_defs 0 [];
            tab = \<lparr>tab_name = tn, cols = cs, indexes = []\<rparr>;
            record_size = curr_offset;
            s1 = rm_create_file tn record_size s;
            s2 = s1\<lparr>db := (db s1)\<lparr>tabs := AList.update tn tab (tabs (db s1))\<rparr>\<rparr>;
            (h, s3) = rm_open_file tn s2;
            s4 = s3\<lparr>fhs := emplace tn h (fhs s3)\<rparr>
        in Inr (flush_meta s4))"

text \<open>The loop over the indexes of the dropped table (lines 255-266).\<close>

fun drop_indexes :: "string \<Rightarrow> IndexMeta list \<Rightarrow> SmManager \<Rightarrow> SmManager" where
  "drop_indexes tn [] s = s"
| "drop_indexes tn (index # rest) s =
     (let index_name = get_index_name_cols tn (ix_cols index);
          (index_handle, ihs1) = subscript None (ihs s) index_name;
          s1 = ix_close_index index_handle (s\<lparr>ihs := ihs1\<rparr>);
          s2 = ix_destroy_index_cols tn (ix_cols index) s1;
          s3 = s2\<lparr>ihs := AList.delete index_name (ihs s2)\<rparr>
      in drop_indexes tn rest s3)"

definition drop_table :: "string \<Rightarrow> SmManager \<Rightarrow> outcome" where
  "drop_table tn s =
     (if \<not> is_table (db s) tn then Inl (TableNotFoundError tn, s)
      else
        let (file_handle, fhs1) = subscript None (fhs s) tn;
            s1 = rm_close_file file_handle (s\<lparr>fhs := fhs1\<rparr>);
            s2 = rm_destroy_file tn s1;
            (tab, tabs1) = subscript default_TabMeta (tabs (db s2)) tn;
            s3 = drop_indexes tn (indexes tab) (s2\<lparr>db := (db s2)\<lparr>tabs := tabs1\<rparr>\<rparr>);
            s4 = s3\<lparr>db := (db s3)\<lparr>tabs := AList.delete tn (tabs (db s3))\<rparr>\<rparr>
        in Inr (s4\<lparr>fhs := AList.delete tn (fhs s4)\<rparr>))"

subsection \<open>create\_index, drop\_index (lines 278-354)\<close>

text \<open>
  The first \<^verbatim>\<open>for_each\<close> of \<^verbatim>\<open>create_index\<close>: each column name is resolved with
  \<^verbatim>\<open>db_.get_table(tab_name)\<close> and \<^verbatim>\<open>get_col\<close>, inside the loop.
\<close>

fun index_columns_of :: "DbMeta \<Rightarrow> string \<Rightarrow> string list \<Rightarrow> ColMeta list \<Rightarrow> error + ColMeta list" where
  "index_columns_of d tn [] acc = Inr acc"
| "index_columns_of d tn (cn # rest) acc =
     (case get_table d tn of
        Inl e \<Rightarrow> Inl e
      | Inr t \<Rightarrow>
          (case get_col t cn of
             Inl e \<Rightarrow> Inl e
           | Inr c \<Rightarrow> index_columns_of d tn rest (acc @ [c])))"

text \<open>The second \<^verbatim>\<open>for_each\<close>: \<^verbatim>\<open>col_tot_len\<close> is summed over the index's columns.\<close>

fun add_col_lens :: "IndexMeta \<Rightarrow> ColMeta list \<Rightarrow> IndexMeta" where
  "add_col_lens index_meta [] = index_meta"
| "add_col_lens index_meta (col_meta # rest) =
     add_col_lens (index_meta\<lparr>col_tot_len := col_tot_len index_meta + col_len col_meta\<rparr>) rest"

definition create_index :: "string \<Rightarrow> string list \<Rightarrow> SmManager \<Rightarrow> outcome" where
  "create_index tn col_names s =
     (if ix_exists tn col_names s then Inl (IndexExistsError tn col_names, s)
      else
        (case index_columns_of (db s) tn col_names [] of
          Inl e \<Rightarrow> Inl (e, s)
        | Inr index_columns \<Rightarrow>
            let s1 = ix_create_index tn index_columns s;
                index_name = get_index_name tn col_names;
                (open_index, s2) = ix_open_index tn index_columns s1;
                s3 = s2\<lparr>ihs := emplace index_name open_index (ihs s2)\<rparr>;
                size' = of_nat (length index_columns);
                index_meta = add_col_lens
                  \<lparr>ix_tab_name = tn, col_tot_len = 0, col_num = size', ix_cols = index_columns\<rparr>
                  index_columns;
                (tab, tabs1) = subscript default_TabMeta (tabs (db s3)) tn
            in Inr (s3\<lparr>db := (db s3)\<lparr>tabs :=
                 AList.update tn (tab\<lparr>indexes := indexes tab @ [index_meta]\<rparr>) tabs1\<rparr>\<rparr>)))"

text \<open>
  The tail both \<^verbatim>\<open>drop_index\<close> overloads share (lines 326-327 and 349-350):
  the index definition is looked up by the column names and erased.
\<close>

definition erase_index_meta :: "string \<Rightarrow> string list \<Rightarrow> SmManager \<Rightarrow> outcome" where
  "erase_index_meta tn col_names s =
     (case get_table (db s) tn of
        Inl e \<Rightarrow> Inl (e, s)
      | Inr tab \<Rightarrow>
          (case get_index_meta tab col_names of
             Inl e \<Rightarrow> Inl (e, s)
           | Inr index_meta \<Rightarrow>
               Inr (s\<lparr>db := (db s)\<lparr>tabs :=
                 AList.update tn (tab\<lparr>indexes := erase_at index_meta (indexes tab)\<rparr>) (tabs (db s))\<rparr>\<rparr>)))"

text \<open>\<^verbatim>\<open>drop_index\<close> by column names (lines 313-328).\<close>

definition drop_index :: "string \<Rightarrow> string list \<Rightarrow> SmManager \<Rightarrow> outcome" where
  "drop_index tn col_names s =
     (let index_name = get_index_name tn col_names;
          (index_handle, ihs1) = subscript None (ihs s) index_name;
          s1 = ix_close_index index_handle (s\<lparr>ihs := ihs1\<rparr>);
          s2 = ix_destroy_index tn col_names s1;
          s3 = s2\<lparr>ihs := AList.delete index_name (ihs s2)\<rparr>
      in erase_index_meta tn col_names s3)"

text \<open>\<^verbatim>\<open>drop_index\<close> by column metadata (lines 336-354).\<close>

definition drop_index_cols :: "string \<Rightarrow> ColMeta list \<Rightarrow> SmManager \<Rightarrow> outcome" where
  "drop_index_cols tn cs s =
     (let index_name = get_index_name_cols tn cs;
          (index_handle, ihs1) = subscript None (ihs s) index_name;
          s1 = ix_close_index index_handle (s\<lparr>ihs := ihs1\<rparr>);
          s2 = ix_destroy_index_cols tn cs s1;
          col_names = map col_name cs;
          s3 = s2\<lparr>ihs := AList.delete (get_index_name_cols tn cs) (ihs s2)\<rparr>
      in erase_index_meta tn col_names s3)"

section \<open>Invariants, and the states of the scenario\<close>

text \<open>
  The state in which control leaves an operation, whether it returns or throws.
\<close>

definition final :: "outcome \<Rightarrow> SmManager" where
  "final r = (case r of Inl (e, s) \<Rightarrow> s | Inr s \<Rightarrow> s)"

text \<open>
  The identities of the index definitions of a schema, table by table. As
  \<^verbatim>\<open>open_db\<close> and \<^verbatim>\<open>drop_table\<close> do, the identity is taken from the key of the
  table in \<^verbatim>\<open>tabs_\<close> and the index's columns.
\<close>

definition index_ids :: "(string \<times> TabMeta) list \<Rightarrow> index_key list" where
  "index_ids ts =
     concat (map (\<lambda>e. map (\<lambda>im. get_index_name_cols (fst e) (ix_cols im)) (indexes (snd e))) ts)"

text \<open>
  I1: the table names of the schema and the keys of \<^verbatim>\<open>fhs_\<close> are the same, each
  once, and every registered record-file handle is open (not null).
\<close>

definition I1 :: "SmManager \<Rightarrow> bool" where
  "I1 s =
     (distinct (map fst (tabs (db s))) \<and> distinct (map fst (fhs s)) \<and>
      set (map fst (tabs (db s))) = set (map fst (fhs s)) \<and>
      list_all (\<lambda>e. snd e \<noteq> None) (fhs s))"

text \<open>
  I2: the identities of the index definitions and the keys of \<^verbatim>\<open>ihs_\<close> are the
  same, each once, and every registered index handle is open (not null).
\<close>

definition I2 :: "SmManager \<Rightarrow> bool" where
  "I2 s =
     (distinct (index_ids (tabs (db s))) \<and> distinct (map fst (ihs s)) \<and>
      set (index_ids (tabs (db s))) = set (map fst (ihs s)) \<and>
      list_all (\<lambda>e. snd e \<noteq> None) (ihs s))"

text \<open>
  The index store and the registry agree: an index that is registered has its
  file in the working directory.
\<close>

definition ix_synced :: "SmManager \<Rightarrow> bool" where
  "ix_synced s = list_all (\<lambda>e. (cwd (fsys s), fst e) \<in> set (ix_files (fsys s))) (ihs s)"

text \<open>The index definition that \<^verbatim>\<open>create_index\<close> builds (lines 298-303).\<close>

definition new_index_meta :: "string \<Rightarrow> ColMeta list \<Rightarrow> IndexMeta" where
  "new_index_meta tn cs = add_col_lens
     \<lparr>ix_tab_name = tn, col_tot_len = 0, col_num = of_nat (length cs), ix_cols = cs\<rparr> cs"

text \<open>The state \<^verbatim>\<open>close_db\<close> leaves in memory: no schema, no handle.\<close>

definition closed :: "SmManager \<Rightarrow> bool" where
  "closed s = (db s = \<lparr>db_name = [], tabs = []\<rparr> \<and> fhs s = [] \<and> ihs s = [])"

text \<open>
  The scenario of the spec: a new manager in an empty root directory; the
  database \<^verbatim>\<open>shop\<close> created and opened; the table \<^verbatim>\<open>orders\<close> with the columns
  \<^verbatim>\<open>id\<close> and \<^verbatim>\<open>total\<close>, four bytes each.
\<close>

definition fresh :: SmManager where
  "fresh = \<lparr>db = \<lparr>db_name = [], tabs = []\<rparr>, fhs = [], ihs = [],
            fsys = \<lparr>cwd = [], dirs = [], meta_files = [], ix_files = []\<rparr>,
            calls = [], out = []\<rparr>"

definition orders_defs :: "ColDef list" where
  "orders_defs = [\<lparr>def_name = ''id'', def_type = TYPE_INT, def_len = 4\<rparr>,
                  \<lparr>def_name = ''total'', def_type = TYPE_INT, def_len = 4\<rparr>]"

definition shop_made :: SmManager where
  "shop_made = \<lparr>db = \<lparr>db_name = [], tabs = []\<rparr>, fhs = [], ihs = [],
     fsys = \<lparr>cwd = [], dirs = [[''shop'']],
              meta_files = [([''shop''], Parsable \<lparr>db_name = ''shop'', tabs = []\<rparr>)],
              ix_files = []\<rparr>,
     calls = [DiskCreateLogFile], out = []\<rparr>"

definition shop_open :: SmManager where
  "shop_open = \<lparr>db = \<lparr>db_name = ''shop'', tabs = []\<rparr>, fhs = [], ihs = [],
     fsys = \<lparr>cwd = [''shop''], dirs = [[''shop'']],
              meta_files = [([''shop''], Parsable \<lparr>db_name = ''shop'', tabs = []\<rparr>)],
              ix_files = []\<rparr>,
     calls = [DiskCreateLogFile], out = []\<rparr>"

definition id_col :: ColMeta where
  "id_col = \<lparr>col_tab_name = ''orders'', col_name = ''id'', col_type = TYPE_INT,
             col_len = 4, col_offset = 0, col_index = False\<rparr>"

definition total_col :: ColMeta where
  "total_col = \<lparr>col_tab_name = ''orders'', col_name = ''total'', col_type = TYPE_INT,
                col_len = 4, col_offset = 4, col_index = False\<rparr>"

definition orders_db :: DbMeta where
  "orders_db = \<lparr>db_name = ''shop'',
     tabs = [(''orders'', \<lparr>tab_name = ''orders'', cols = [id_col, total_col], indexes = []\<rparr>)]\<rparr>"

definition shop_orders :: SmManager where
  "shop_orders = \<lparr>db = orders_db,
     fhs = [(''orders'', Some (RmFileHandle ''orders''))], ihs = [],
     fsys = \<lparr>cwd = [''shop''], dirs = [[''shop'']],
              meta_files = [([''shop''], Parsable orders_db)], ix_files = []\<rparr>,
     calls = [DiskCreateLogFile, RmCreateFile ''orders'' 8, RmOpenFile ''orders''], out = []\<rparr>"

text \<open>
  A state with a record-file handle left over: the databases \<^verbatim>\<open>a\<close> and
  \<^verbatim>\<open>b\<close> are created, \<^verbatim>\<open>a\<close> is opened and gets the table \<^verbatim>\<open>t\<close>; without a
  \<^verbatim>\<open>close_db\<close>, \<^verbatim>\<open>open_db("..")\<close> goes back to the root and \<^verbatim>\<open>open_db("b")\<close>
  loads the empty schema of \<^verbatim>\<open>b\<close>, while \<^verbatim>\<open>fhs_\<close> keeps the handle of \<^verbatim>\<open>t\<close>.
\<close>

definition stale_handle :: SmManager where
  "stale_handle = \<lparr>db = \<lparr>db_name = ''b'', tabs = []\<rparr>,
     fhs = [(''t'', Some (RmFileHandle ''t''))], ihs = [],
     fsys = \<lparr>cwd = [''b''], dirs = [[''a''], [''b'']],
              meta_files =
                [([''a''], Parsable \<lparr>db_name = ''a'',
                    tabs = [(''t'', \<lparr>tab_name = ''t'', cols = [], indexes = []\<rparr>)]\<rparr>),
                 ([''b''], Parsable \<lparr>db_name = ''b'', tabs = []\<rparr>)],
              ix_files = []\<rparr>,
     calls = [DiskCreateLogFile, DiskCreateLogFile, RmCreateFile ''t'' 0, RmOpenFile ''t''],
     out = [MetaFormatError]\<rparr>"

section \<open>The scenario runs as the spec tells it\<close>

lemma split_path_plain: "CHR ''/'' \<notin> set n \<Longrightarrow> split_path n = [n]"
  by (induction n) auto

lemma resolve_parent: "resolve f ''..'' = Some (butlast (cwd f))"
  by (simp add: resolve_def start_dir_def)

lemma resolve_plain:
  assumes "CHR ''/'' \<notin> set n" and "n \<noteq> []" and "n \<noteq> ''.''" and "n \<noteq> ''..''"
  shows "resolve f n = (if cwd f @ [n] \<in> set (dirs f) then Some (cwd f @ [n]) else None)"
proof -
  from assms(1,2) have "start_dir f n = cwd f"
    by (cases n) (auto simp: start_dir_def)
  with assms show ?thesis
    by (simp add: resolve_def split_path_plain)
qed

lemma mkdir_plain:
  assumes "CHR ''/'' \<notin> set n" and "n \<noteq> []" and "n \<noteq> ''.''" and "n \<noteq> ''..''"
  shows "mkdir n f = (if cwd f @ [n] \<in> set (dirs f) then f else f\<lparr>dirs := dirs f @ [cwd f @ [n]]\<rparr>)"
proof -
  from assms(1,2) have "start_dir f n = cwd f"
    by (cases n) (auto simp: start_dir_def)
  with assms show ?thesis
    by (simp add: mkdir_def split_path_plain)
qed

lemma cwd_mkdir: "cwd (mkdir n f) = cwd f"
  by (simp add: mkdir_def split: list.splits option.splits)

lemma cwd_rm_r: "cwd (rm_r n f) = cwd f"
  by (simp add: rm_r_def split: list.splits option.splits)

lemma scenario_create_db: "create_db ''shop'' fresh = Inr shop_made"
  by (simp add: create_db_def fresh_def shop_made_def is_dir_def chdir_def resolve_plain
      resolve_parent mkdir_plain write_meta_def disk_create_log_file_def)

lemma scenario_open_db_try: "open_db_try ''shop'' shop_made = Inr shop_open"
  by (simp add: open_db_try_def shop_made_def shop_open_def chdir_def resolve_plain
      read_meta_def)

lemma scenario_open_db: "open_db ''shop'' shop_made = Inr shop_open"
  by (simp add: open_db_def scenario_open_db_try)

lemma scenario_create_table: "create_table ''orders'' orders_defs shop_open = Inr shop_orders"
  by (simp add: create_table_def shop_open_def shop_orders_def orders_defs_def orders_db_def
      id_col_def total_col_def is_table_def rm_create_file_def rm_open_file_def emplace_def
      flush_meta_def write_meta_def Let_def)

section \<open>Column offsets and the record size (create\_table)\<close>

lemma build_cols_snd: "snd (build_cols tn ds off acc) = off + sum_list (map def_len ds)"
  by (induction ds arbitrary: off acc) (simp_all add: add.assoc)

lemma build_cols_fst:
  "fst (build_cols tn ds off acc) =
     acc @ map (\<lambda>i. \<lparr>col_tab_name = tn, col_name = def_name (ds ! i), col_type = def_type (ds ! i),
                col_len = def_len (ds ! i), col_offset = off + sum_list (map def_len (take i ds)),
                col_index = False\<rparr>) [0..<length ds]"
proof (induction ds arbitrary: off acc)
  case Nil
  then show ?case by simp
next
  case (Cons d ds)
  have "[0..<length (d # ds)] = 0 # map Suc [0..<length ds]"
    by (simp add: upt_conv_Cons map_Suc_upt del: upt_Suc)
  then show ?case
    using Cons.IH [of "off + def_len d"] by (simp add: comp_def add.assoc)
qed

lemma map_nth_upt: "map (\<lambda>i. f (xs ! i)) [0..<length xs] = map f xs"
  by (rule nth_equalityI) simp_all

text \<open>
  Where no sum leaves the range of \<^verbatim>\<open>int\<close>, the wrapping sum of the code is the
  sum of the integers.
\<close>

lemma word_sum_list_sint: "(sum_list ws :: cint) = word_of_int (sum_list (map sint ws))"
  by (induction ws) simp_all

lemma sint_sum_list:
  assumes "- (2 ^ 31) \<le> sum_list (map sint ws)" "sum_list (map sint ws) < 2 ^ 31"
  shows "sint (sum_list ws :: cint) = sum_list (map sint ws)"
proof -
  have "sint (sum_list ws :: cint) = signed_take_bit 31 (sum_list (map sint ws))"
    by (subst word_sum_list_sint) (simp add: sint_sbintrunc')
  also have "\<dots> = sum_list (map sint ws)"
    using assms by (intro signed_take_bit_int_eq_self) simp_all
  finally show ?thesis .
qed

lemma sum_list_take_le:
  fixes xs :: "int list"
  assumes "\<forall>x\<in>set xs. 0 \<le> x"
  shows "0 \<le> sum_list (take i xs) \<and> sum_list (take i xs) \<le> sum_list xs"
  using assms
proof (induction xs arbitrary: i)
  case Nil
  then show ?case by simp
next
  case (Cons x xs)
  then show ?case by (cases i) (auto simp: sum_list_nonneg intro: add_nonneg_nonneg order_trans)
qed

lemma sint_prefix_sum:
  assumes nonneg: "list_all (\<lambda>d. 0 \<le> sint (def_len d)) ds"
    and small: "sum_list (map (\<lambda>d. sint (def_len d)) ds) < 2 ^ 31"
  shows "sint (sum_list (map def_len (take i ds))) = sum_list (map (\<lambda>d. sint (def_len d)) (take i ds))"
proof -
  let ?xs = "map (\<lambda>d. sint (def_len d)) ds"
  have "\<forall>x\<in>set ?xs. 0 \<le> x"
    using nonneg by (auto simp: list_all_iff)
  from sum_list_take_le [OF this, of i]
  have "0 \<le> sum_list (take i ?xs)" "sum_list (take i ?xs) < 2 ^ 31"
    using small by auto
  then have "sint (sum_list (map def_len (take i ds))) = sum_list (map sint (map def_len (take i ds)))"
    by (intro sint_sum_list) (simp_all add: take_map comp_def)
  then show ?thesis by (simp add: comp_def)
qed

text \<open>
  C2. For every list of column definitions, a \<^verbatim>\<open>create_table\<close> that returns has
  stored a table whose columns carry the names and lengths of the definitions,
  in their order, each with the sum of the lengths of the columns before it as
  its offset (the first one 0), and the record size it passed to
  \<^verbatim>\<open>RmManager::create_file\<close> is the sum of all the lengths. The sums are those of
  the code's \<^verbatim>\<open>int\<close>; when the lengths are not negative and their total is
  below \<open>2 ^ 31\<close>, they are the sums of the integers.
\<close>

theorem create_table_offsets:
  assumes ok: "create_table tn col_defs s = Inr s'"
  shows "\<exists>tab. get_table (db s') tn = Inr tab \<and>
           map col_name (cols tab) = map def_name col_defs \<and>
           map col_len (cols tab) = map def_len col_defs \<and>
           map col_offset (cols tab) =
             map (\<lambda>i. sum_list (map def_len (take i col_defs))) [0..<length col_defs] \<and>
           calls s' = calls s @ [RmCreateFile tn (sum_list (map def_len col_defs)), RmOpenFile tn] \<and>
           (list_all (\<lambda>d. 0 \<le> sint (def_len d)) col_defs \<and>
            sum_list (map (\<lambda>d. sint (def_len d)) col_defs) < 2 ^ 31 \<longrightarrow>
              map (\<lambda>c. sint (col_offset c)) (cols tab) =
                map (\<lambda>i. sum_list (map (\<lambda>d. sint (def_len d)) (take i col_defs))) [0..<length col_defs] \<and>
              sint (sum_list (map def_len col_defs)) = sum_list (map (\<lambda>d. sint (def_len d)) col_defs))"
proof -
  obtain cs off where bc: "build_cols tn col_defs 0 [] = (cs, off)"
    by (cases "build_cols tn col_defs 0 []")
  have off: "off = sum_list (map def_len col_defs)"
    using build_cols_snd [of tn col_defs 0 "[]"] bc by simp
  have cs: "cs = map (\<lambda>i. \<lparr>col_tab_name = tn, col_name = def_name (col_defs ! i),
                col_type = def_type (col_defs ! i), col_len = def_len (col_defs ! i),
                col_offset = sum_list (map def_len (take i col_defs)),
                col_index = False\<rparr>) [0..<length col_defs]"
    using build_cols_fst [of tn col_defs 0 "[]"] bc by simp
  let ?tab = "\<lparr>tab_name = tn, cols = cs, indexes = []\<rparr>"
  from ok have nt: "\<not> is_table (db s) tn"
    by (auto simp: create_table_def split: if_splits)
  from ok nt bc have tab: "get_table (db s') tn = Inr ?tab"
    by (auto simp: create_table_def get_table_def flush_meta_def rm_create_file_def
        rm_open_file_def update_conv' Let_def)
  from ok nt bc off have cl: "calls s' = calls s @ [RmCreateFile tn (sum_list (map def_len col_defs)), RmOpenFile tn]"
    by (auto simp: create_table_def flush_meta_def rm_create_file_def rm_open_file_def Let_def)
  have names: "map col_name cs = map def_name col_defs"
    by (simp add: cs comp_def map_nth_upt)
  have lens: "map col_len cs = map def_len col_defs"
    by (simp add: cs comp_def map_nth_upt)
  have offs: "map col_offset cs = map (\<lambda>i. sum_list (map def_len (take i col_defs))) [0..<length col_defs]"
    by (simp add: cs comp_def)
  have ints: "map (\<lambda>c. sint (col_offset c)) cs =
                map (\<lambda>i. sum_list (map (\<lambda>d. sint (def_len d)) (take i col_defs))) [0..<length col_defs] \<and>
              sint (sum_list (map def_len col_defs)) = sum_list (map (\<lambda>d. sint (def_len d)) col_defs)"
    if "list_all (\<lambda>d. 0 \<le> sint (def_len d)) col_defs"
      and "sum_list (map (\<lambda>d. sint (def_len d)) col_defs) < 2 ^ 31"
    using sint_prefix_sum [OF that] sint_prefix_sum [OF that, of "length col_defs"]
    by (simp add: cs comp_def)
  show ?thesis
    using tab cl names lens offs ints by auto
qed

theorem create_table_offsets_witness:
  "create_table ''orders'' orders_defs shop_open = Inr shop_orders \<and>
   list_all (\<lambda>d. 0 \<le> sint (def_len d)) orders_defs \<and>
   sum_list (map (\<lambda>d. sint (def_len d)) orders_defs) < 2 ^ 31 \<and>
   (\<exists>tab. get_table (db shop_orders) ''orders'' = Inr tab \<and>
      map col_name (cols tab) = [''id'', ''total''] \<and>
      map col_offset (cols tab) = [0, 4] \<and>
      map (\<lambda>c. sint (col_offset c)) (cols tab) = [0, 4]) \<and>
   calls shop_orders = calls shop_open @ [RmCreateFile ''orders'' 8, RmOpenFile ''orders'']"
proof -
  have pre: "list_all (\<lambda>d. 0 \<le> sint (def_len d)) orders_defs \<and>
             sum_list (map (\<lambda>d. sint (def_len d)) orders_defs) < 2 ^ 31"
    by (simp add: orders_defs_def)
  have up: "[0..<length orders_defs] = [0, 1]"
    by (simp add: orders_defs_def upt_rec)
  from create_table_offsets [OF scenario_create_table] pre
  have "(\<exists>tab. get_table (db shop_orders) ''orders'' = Inr tab \<and>
      map col_name (cols tab) = [''id'', ''total''] \<and>
      map col_offset (cols tab) = [0, 4] \<and>
      map (\<lambda>c. sint (col_offset c)) (cols tab) = [0, 4]) \<and>
   calls shop_orders = calls shop_open @ [RmCreateFile ''orders'' 8, RmOpenFile ''orders'']"
    unfolding up by (auto simp: orders_defs_def)
  with pre scenario_create_table show ?thesis
    by blast
qed

section \<open>The two shapes of drop\_index\<close>

text \<open>
  C4. \<^verbatim>\<open>drop_index\<close> by column metadata and \<^verbatim>\<open>drop_index\<close> by the names of these
  columns are the same operation: on every state they have the same outcome,
  the same schema, registries, index files and calls to the collaborators,
  whether they return or throw. The identity both resolve to is the same by the
  index store's contract (\<^const>\<open>get_index_name_cols\<close>).
\<close>

theorem drop_index_cols_eq:
  "drop_index_cols tn cs s = drop_index tn (map col_name cs) s"
  by (simp add: drop_index_cols_def drop_index_def get_index_name_cols_def
      ix_destroy_index_cols_def Let_def)

section \<open>Facts about the containers\<close>

lemma map_of_None_keys: "map_of m k = None \<longleftrightarrow> k \<notin> set (map fst m)"
  by (simp add: map_of_eq_None_iff)

lemma delete_absent: "map_of m k = None \<Longrightarrow> AList.delete k m = m"
  by (induction m) (auto split: if_splits)

lemma delete_snoc_same: "AList.delete k (m @ [(k, v)]) = AList.delete k m"
  by (simp add: AList.delete_eq)

lemma subscript_present: "map_of m k = Some v \<Longrightarrow> subscript d m k = (v, m)"
  by (simp add: subscript_def)

lemma subscript_absent: "map_of m k = None \<Longrightarrow> subscript d m k = (d, m @ [(k, d)])"
  by (simp add: subscript_def)

lemma emplace_absent: "map_of m k = None \<Longrightarrow> emplace k v m = m @ [(k, v)]"
  by (simp add: emplace_def)

lemma emplace_present: "map_of m k = Some w \<Longrightarrow> emplace k v m = m"
  by (simp add: emplace_def)

lemma is_table_iff: "is_table d tn \<longleftrightarrow> tn \<in> set (map fst (tabs d))"
proof (cases "map_of (tabs d) tn")
  case None
  then have "tn \<notin> set (map fst (tabs d))" by (simp add: map_of_None_keys)
  moreover from None have "\<not> is_table d tn" by (simp add: is_table_def)
  ultimately show ?thesis by simp
next
  case (Some t)
  then have "(tn, t) \<in> set (tabs d)" by (rule map_of_SomeD)
  then have "tn \<in> fst ` set (tabs d)" by force
  with Some show ?thesis by (simp add: is_table_def)
qed

section \<open>create\_table followed by drop\_table\<close>

lemma scenario_I1: "I1 shop_open"
  by (simp add: I1_def shop_open_def)

lemma create_db_plain:
  assumes "CHR ''/'' \<notin> set n" and "n \<noteq> []" and "n \<noteq> ''.''" and "n \<noteq> ''..''"
    and "cwd (fsys s) @ [n] \<notin> set (dirs (fsys s))"
  shows "create_db n s = Inr (s\<lparr>
      fsys := (fsys s)\<lparr>dirs := dirs (fsys s) @ [cwd (fsys s) @ [n]],
        meta_files := AList.update (cwd (fsys s) @ [n]) (Parsable \<lparr>db_name = n, tabs = []\<rparr>)
          (meta_files (fsys s))\<rparr>,
      calls := calls s @ [DiskCreateLogFile]\<rparr>)"
  using assms
  by (simp add: create_db_def is_dir_def chdir_def resolve_plain resolve_parent mkdir_plain
      write_meta_def disk_create_log_file_def)

text \<open>The state \<^const>\<open>stale_handle\<close> is reached by calls of the manager alone.\<close>

lemma stale_handle_reached:
  "\<exists>s1 s2 s3 s4 s5.
     create_db ''a'' fresh = Inr s1 \<and> create_db ''b'' s1 = Inr s2 \<and>
     open_db ''a'' s2 = Inr s3 \<and> create_table ''t'' [] s3 = Inr s4 \<and>
     open_db ''..'' s4 = Inr s5 \<and> open_db ''b'' s5 = Inr stale_handle"
proof -
  define s1 where "s1 = fresh\<lparr>
      fsys := (fsys fresh)\<lparr>dirs := [[''a'']],
        meta_files := [([''a''], Parsable \<lparr>db_name = ''a'', tabs = []\<rparr>)]\<rparr>,
      calls := [DiskCreateLogFile]\<rparr>"
  define s2 where "s2 = s1\<lparr>
      fsys := (fsys s1)\<lparr>dirs := [[''a''], [''b'']],
        meta_files := [([''a''], Parsable \<lparr>db_name = ''a'', tabs = []\<rparr>),
                       ([''b''], Parsable \<lparr>db_name = ''b'', tabs = []\<rparr>)]\<rparr>,
      calls := [DiskCreateLogFile, DiskCreateLogFile]\<rparr>"
  define s3 where "s3 = s2\<lparr>db := \<lparr>db_name = ''a'', tabs = []\<rparr>,
      fsys := (fsys s2)\<lparr>cwd := [''a'']\<rparr>\<rparr>"
  define s4 where "s4 = s3\<lparr>
      db := \<lparr>db_name = ''a'', tabs = [(''t'', \<lparr>tab_name = ''t'', cols = [], indexes = []\<rparr>)]\<rparr>,
      fhs := [(''t'', Some (RmFileHandle ''t''))],
      fsys := (fsys s3)\<lparr>meta_files :=
        [([''a''], Parsable \<lparr>db_name = ''a'',
            tabs = [(''t'', \<lparr>tab_name = ''t'', cols = [], indexes = []\<rparr>)]\<rparr>),
         ([''b''], Parsable \<lparr>db_name = ''b'', tabs = []\<rparr>)]\<rparr>,
      calls := [DiskCreateLogFile, DiskCreateLogFile, RmCreateFile ''t'' 0, RmOpenFile ''t'']\<rparr>"
  define s5 where "s5 = s4\<lparr>fsys := (fsys s4)\<lparr>cwd := []\<rparr>, out := [MetaFormatError]\<rparr>"
  have 1: "create_db ''a'' fresh = Inr s1"
    by (subst create_db_plain) (simp_all add: fresh_def s1_def)
  have 2: "create_db ''b'' s1 = Inr s2"
    by (subst create_db_plain) (simp_all add: fresh_def s1_def s2_def)
  have 3: "open_db ''a'' s2 = Inr s3"
    by (simp add: open_db_def open_db_try_def chdir_def resolve_plain read_meta_def
        fresh_def s1_def s2_def s3_def)
  have 4: "create_table ''t'' [] s3 = Inr s4"
    by (simp add: create_table_def is_table_def rm_create_file_def rm_open_file_def emplace_def
        flush_meta_def write_meta_def fresh_def s1_def s2_def s3_def s4_def Let_def)
  have 5: "open_db ''..'' s4 = Inr s5"
    by (simp add: open_db_def open_db_try_def chdir_def resolve_parent read_meta_def
        fresh_def s1_def s2_def s3_def s4_def s5_def)
  have 6: "open_db ''b'' s5 = Inr stale_handle"
    by (simp add: open_db_def open_db_try_def chdir_def resolve_plain read_meta_def
        fresh_def s1_def s2_def s3_def s4_def s5_def stale_handle_def)
  from 1 2 3 4 5 6 show ?thesis
    by blast
qed

text \<open>
  C3, as the code has it. In a state in which the table \<open>tn\<close> is not in the
  schema and has no entry in the registry of record-file handles,
  \<^verbatim>\<open>create_table\<close> returns, the \<^verbatim>\<open>drop_table\<close> that follows returns, and the
  schema, the registry of record-file handles and the registry of index handles
  are what they were before \<^verbatim>\<open>create_table\<close>. Every state in which I1 holds
  and the table is not in the schema is such a state.
\<close>

theorem create_table_drop_table:
  assumes absent: "\<not> is_table (db s) tn" and f_none: "map_of (fhs s) tn = None"
  shows "\<exists>s1 s2. create_table tn col_defs s = Inr s1 \<and> drop_table tn s1 = Inr s2 \<and>
           db s2 = db s \<and> fhs s2 = fhs s \<and> ihs s2 = ihs s"
proof -
  from absent have t_none: "map_of (tabs (db s)) tn = None"
    by (simp add: is_table_def split: option.splits)
  obtain cs off where bc: "build_cols tn col_defs 0 [] = (cs, off)"
    by (cases "build_cols tn col_defs 0 []")
  define tab where "tab = \<lparr>tab_name = tn, cols = cs, indexes = []\<rparr>"
  define s1 where "s1 = s\<lparr>db := (db s)\<lparr>tabs := AList.update tn tab (tabs (db s))\<rparr>,
      fhs := fhs s @ [(tn, Some (RmFileHandle tn))],
      calls := calls s @ [RmCreateFile tn off, RmOpenFile tn],
      fsys := write_meta ((db s)\<lparr>tabs := AList.update tn tab (tabs (db s))\<rparr>) (fsys s)\<rparr>"
  have c: "create_table tn col_defs s = Inr s1"
    using absent bc f_none
    by (simp add: create_table_def s1_def tab_def rm_create_file_def rm_open_file_def
        emplace_absent flush_meta_def Let_def)
  have t1: "map_of (tabs (db s1)) tn = Some tab"
    by (simp add: s1_def update_conv')
  have f1: "map_of (fhs s1) tn = Some (Some (RmFileHandle tn))"
    by (simp add: s1_def f_none map_add_def)
  have it: "is_table (db s1) tn"
    using t1 by (simp add: is_table_def)
  define s2 where "s2 = s1\<lparr>db := (db s1)\<lparr>tabs := AList.delete tn (tabs (db s1))\<rparr>,
      fhs := AList.delete tn (fhs s1),
      calls := calls s1 @ [RmCloseFile (Some (RmFileHandle tn)), RmDestroyFile tn]\<rparr>"
  have d: "drop_table tn s1 = Inr s2"
    using it
    by (simp add: drop_table_def subscript_present [OF f1] subscript_present [OF t1]
        rm_close_file_def rm_destroy_file_def tab_def s2_def Let_def)
  have "db s2 = db s"
    using t_none by (simp add: s2_def s1_def delete_update_same delete_absent)
  moreover have "fhs s2 = fhs s"
    using f_none by (simp add: s2_def s1_def delete_snoc_same delete_absent)
  moreover have "ihs s2 = ihs s"
    by (simp add: s2_def s1_def)
  ultimately show ?thesis
    using c d by blast
qed

theorem create_table_drop_table_witness:
  "\<not> is_table (db shop_open) ''orders'' \<and> map_of (fhs shop_open) ''orders'' = None \<and>
   (\<exists>s1 s2. create_table ''orders'' orders_defs shop_open = Inr s1 \<and>
      drop_table ''orders'' s1 = Inr s2 \<and>
      db s2 = db shop_open \<and> fhs s2 = fhs shop_open \<and> ihs s2 = ihs shop_open)"
proof -
  have a: "\<not> is_table (db shop_open) ''orders''"
    by (simp add: is_table_def shop_open_def)
  have b: "map_of (fhs shop_open) ''orders'' = None"
    by (simp add: shop_open_def)
  from create_table_drop_table [OF a b, of orders_defs] a b
  show ?thesis by blast
qed

text \<open>
  The claim C3 as the spec states it fails: in the state \<^const>\<open>stale_handle\<close>
  the table \<^verbatim>\<open>t\<close> does not exist, yet \<^verbatim>\<open>fhs_\<close> has a handle under \<^verbatim>\<open>t\<close>.
  \<^verbatim>\<open>emplace\<close> (line 235) keeps that handle, \<^verbatim>\<open>drop_table\<close> erases it
  (line 269), and the registry of record-file handles is not what it was.
\<close>

theorem create_table_drop_table_stale_handle:
  "\<not> is_table (db stale_handle) ''t'' \<and>
   fhs stale_handle = [(''t'', Some (RmFileHandle ''t''))] \<and>
   (\<exists>s1 s2. create_table ''t'' [] stale_handle = Inr s1 \<and> drop_table ''t'' s1 = Inr s2 \<and>
      db s2 = db stale_handle \<and> ihs s2 = ihs stale_handle \<and> fhs s2 = [] \<and>
      fhs s2 \<noteq> fhs stale_handle)"
  by (simp add: create_table_def drop_table_def is_table_def rm_create_file_def rm_open_file_def
      rm_close_file_def rm_destroy_file_def emplace_def subscript_def flush_meta_def
      write_meta_def stale_handle_def Let_def)

section \<open>What the loops leave alone\<close>

lemma open_indexes_frame:
  "db (open_indexes tn ims s) = db s \<and> fhs (open_indexes tn ims s) = fhs s \<and>
   fsys (open_indexes tn ims s) = fsys s \<and> out (open_indexes tn ims s) = out s"
  by (induction ims arbitrary: s) (simp_all add: ix_open_index_def Let_def)

lemma open_tables_frame:
  "db (open_tables ts s) = db s \<and> fsys (open_tables ts s) = fsys s \<and>
   out (open_tables ts s) = out s"
  by (induction ts arbitrary: s) (simp_all add: rm_open_file_def open_indexes_frame Let_def)

lemma close_files_frame:
  "db (close_files m s) = db s \<and> fhs (close_files m s) = fhs s \<and> ihs (close_files m s) = ihs s \<and>
   fsys (close_files m s) = fsys s \<and> out (close_files m s) = out s \<and>
   calls (close_files m s) = calls s @ map (\<lambda>e. RmCloseFile (snd e)) m"
  by (induction m arbitrary: s) (simp_all add: rm_close_file_def)

lemma close_indexes_frame:
  "db (close_indexes m s) = db s \<and> fhs (close_indexes m s) = fhs s \<and> ihs (close_indexes m s) = ihs s \<and>
   fsys (close_indexes m s) = fsys s \<and> out (close_indexes m s) = out s \<and>
   calls (close_indexes m s) = calls s @ map (\<lambda>e. IxCloseIndex (snd e)) m"
  by (induction m arbitrary: s) (simp_all add: ix_close_index_def)

lemma drop_indexes_frame:
  "db (drop_indexes tn ims s) = db s \<and> fhs (drop_indexes tn ims s) = fhs s \<and>
   cwd (fsys (drop_indexes tn ims s)) = cwd (fsys s) \<and>
   dirs (fsys (drop_indexes tn ims s)) = dirs (fsys s) \<and>
   meta_files (fsys (drop_indexes tn ims s)) = meta_files (fsys s) \<and>
   out (drop_indexes tn ims s) = out s"
  by (induction ims arbitrary: s)
    (simp_all add: ix_close_index_def ix_destroy_index_cols_def ix_destroy_index_def Let_def
      split: prod.splits)

text \<open>What \<^verbatim>\<open>close_db\<close> does, in one equation.\<close>

lemma close_db_eq:
  "close_db s = s\<lparr>db := \<lparr>db_name = [], tabs = []\<rparr>, fhs := [], ihs := [],
     fsys := write_meta (db s) (fsys s),
     calls := calls s @ map (\<lambda>e. RmCloseFile (snd e)) (fhs s) @ map (\<lambda>e. IxCloseIndex (snd e)) (ihs s)\<rparr>"
  by (rule SmManager.equality)
    (simp_all add: close_db_def flush_meta_def close_files_frame close_indexes_frame Let_def)

section \<open>open\_db and its errors\<close>

text \<open>
  C5, as the code has it. \<^verbatim>\<open>open_db\<close> never lets an error reach its caller:
  the \<^verbatim>\<open>catch\<close> of lines 120-122 takes every exception of the body, prints it
  and returns. When the directory is missing, \<^verbatim>\<open>chdir\<close> fails and the manager
  is as before but for the printed \<^verbatim>\<open>UnixError\<close>; when the directory is there
  and the metadata file is missing or cannot be parsed, the working directory
  has changed and the reader's error is printed.
\<close>

theorem open_db_swallows:
  "(\<exists>s'. open_db n s = Inr s') \<and>
   (\<not> is_dir n (fsys s) \<longrightarrow> open_db n s = Inr (s\<lparr>out := out s @ [UnixError]\<rparr>)) \<and>
   (resolve (fsys s) n = Some p \<and> read_meta ((fsys s)\<lparr>cwd := p\<rparr>) = Inl e \<longrightarrow>
      is_dir n (fsys s) \<and>
      open_db n s = Inr (s\<lparr>fsys := (fsys s)\<lparr>cwd := p\<rparr>, out := out s @ [e]\<rparr>))"
  by (auto simp: open_db_def open_db_try_def chdir_def is_dir_def Let_def
      split: sum.splits prod.splits option.splits)

theorem open_db_swallows_witness:
  "\<not> is_dir ''nowhere'' (fsys shop_open) \<and>
   open_db ''nowhere'' shop_open = Inr (shop_open\<lparr>out := [UnixError]\<rparr>) \<and>
   is_dir ''..'' (fsys shop_open) \<and> resolve (fsys shop_open) ''..'' = Some [] \<and>
   read_meta ((fsys shop_open)\<lparr>cwd := []\<rparr>) = Inl MetaFormatError \<and>
   open_db ''..'' shop_open =
     Inr (shop_open\<lparr>fsys := (fsys shop_open)\<lparr>cwd := []\<rparr>, out := [MetaFormatError]\<rparr>)"
proof -
  have a: "\<not> is_dir ''nowhere'' (fsys shop_open)"
    by (simp add: is_dir_def resolve_plain shop_open_def)
  have b: "resolve (fsys shop_open) ''..'' = Some []"
    by (simp add: resolve_parent shop_open_def)
  have c: "read_meta ((fsys shop_open)\<lparr>cwd := []\<rparr>) = Inl MetaFormatError"
    by (simp add: read_meta_def shop_open_def)
  have r: "out shop_open = []"
    by (simp add: shop_open_def)
  from open_db_swallows [of "''nowhere''" shop_open] a
  have d: "open_db ''nowhere'' shop_open = Inr (shop_open\<lparr>out := [UnixError]\<rparr>)"
    by (simp add: r)
  from open_db_swallows [of "''..''" shop_open "[]" MetaFormatError] b c
  have e: "is_dir ''..'' (fsys shop_open)" "open_db ''..'' shop_open =
     Inr (shop_open\<lparr>fsys := (fsys shop_open)\<lparr>cwd := []\<rparr>, out := [MetaFormatError]\<rparr>)"
    by (simp_all add: r)
  from a b c d e show ?thesis
    by blast
qed

text \<open>
  The claim C5 as the spec states it fails: with no directory \<^verbatim>\<open>nowhere\<close>,
  \<^verbatim>\<open>open_db\<close> returns normally.
\<close>

theorem open_db_missing_dir_returns:
  "\<not> is_dir ''nowhere'' (fsys fresh) \<and>
   open_db ''nowhere'' fresh = Inr (fresh\<lparr>out := [UnixError]\<rparr>)"
  by (simp add: open_db_def open_db_try_def chdir_def is_dir_def resolve_plain fresh_def)

section \<open>close\_db on a closed manager\<close>

text \<open>
  C6, as the code has it. On a manager that is already closed, \<^verbatim>\<open>close_db\<close>
  calls no collaborator (no handle is closed) and leaves the schema, the
  registries and the working directory as they are; what it does is
  \<^verbatim>\<open>flush_meta\<close>: the metadata file of the working directory is rewritten with
  the empty schema. So \<^verbatim>\<open>close_db\<close> leaves a closed manager, and a second
  \<^verbatim>\<open>close_db\<close> differs from the first by that rewrite alone.
\<close>

theorem close_db_when_closed:
  "(closed s \<longrightarrow> close_db s = s\<lparr>fsys := write_meta \<lparr>db_name = [], tabs = []\<rparr> (fsys s)\<rparr>) \<and>
   closed (close_db s) \<and>
   close_db (close_db s) =
     (close_db s)\<lparr>fsys := write_meta \<lparr>db_name = [], tabs = []\<rparr> (fsys (close_db s))\<rparr>"
proof -
  have one: "close_db t = t\<lparr>fsys := write_meta \<lparr>db_name = [], tabs = []\<rparr> (fsys t)\<rparr>"
    if "closed t" for t
    using that by (subst close_db_eq) (simp add: closed_def)
  have two: "closed (close_db s)"
    by (subst close_db_eq) (simp add: closed_def)
  from one [OF two] one two show ?thesis
    by blast
qed

theorem close_db_when_closed_witness:
  "closed fresh \<and>
   close_db fresh = fresh\<lparr>fsys := write_meta \<lparr>db_name = [], tabs = []\<rparr> (fsys fresh)\<rparr> \<and>
   calls (close_db fresh) = [] \<and>
   closed (close_db shop_orders) \<and>
   calls (close_db (close_db shop_orders)) = calls (close_db shop_orders)"
proof -
  have a: "closed fresh"
    by (simp add: closed_def fresh_def)
  from close_db_when_closed [of fresh] a
  have b: "close_db fresh = fresh\<lparr>fsys := write_meta \<lparr>db_name = [], tabs = []\<rparr> (fsys fresh)\<rparr>"
    by blast
  have c: "calls (close_db fresh) = []"
    by (subst b) (simp add: fresh_def)
  from close_db_when_closed [of shop_orders]
  have d: "closed (close_db shop_orders)"
    and e: "close_db (close_db shop_orders) =
      (close_db shop_orders)\<lparr>fsys := write_meta \<lparr>db_name = [], tabs = []\<rparr> (fsys (close_db shop_orders))\<rparr>"
    by blast+
  have f: "calls (close_db (close_db shop_orders)) = calls (close_db shop_orders)"
    by (subst e) simp
  from a b c d f show ?thesis
    by blast
qed

text \<open>
  The claim C6 as the spec states it fails: after the table \<^verbatim>\<open>orders\<close> was
  made, the first \<^verbatim>\<open>close_db\<close> leaves the schema with \<^verbatim>\<open>orders\<close> in the
  metadata file; the second, on the closed manager, replaces it with the empty
  schema.
\<close>

theorem close_db_twice_differs:
  "closed (close_db shop_orders) \<and>
   read_meta (fsys (close_db shop_orders)) = Inr orders_db \<and>
   read_meta (fsys (close_db (close_db shop_orders))) = Inr \<lparr>db_name = [], tabs = []\<rparr> \<and>
   close_db (close_db shop_orders) \<noteq> close_db shop_orders"
proof -
  have a: "closed (close_db shop_orders)"
    by (subst close_db_eq) (simp add: closed_def)
  have b: "read_meta (fsys (close_db shop_orders)) = Inr orders_db"
    by (subst close_db_eq) (simp add: read_meta_def write_meta_def shop_orders_def)
  have c: "read_meta (fsys (close_db (close_db shop_orders))) = Inr \<lparr>db_name = [], tabs = []\<rparr>"
    by (subst close_db_eq, subst close_db_eq)
      (simp add: read_meta_def write_meta_def shop_orders_def)
  have "orders_db \<noteq> \<lparr>db_name = [], tabs = []\<rparr>"
    by (simp add: orders_db_def)
  with b c have "close_db (close_db shop_orders) \<noteq> close_db shop_orders"
    by auto
  with a b c show ?thesis
    by blast
qed

section \<open>The working directory\<close>

lemma cwd_write_meta: "cwd (write_meta d f) = cwd f"
  by (simp add: write_meta_def)

lemma open_db_try_cwd:
  assumes "open_db_try n s = Inr s1"
  shows "is_dir n (fsys s) \<and> open_db n s = Inr s1 \<and> resolve (fsys s) n = Some (cwd (fsys s1))"
  using assms
  by (auto simp: open_db_def open_db_try_def chdir_def is_dir_def open_tables_frame Let_def
      split: option.splits sum.splits)

lemma open_db_cwd:
  assumes "resolve (fsys s) n = Some p"
  shows "cwd (fsys (final (open_db n s))) = p"
  using assms
  by (auto simp: final_def open_db_def open_db_try_def chdir_def open_tables_frame Let_def
      split: sum.splits)

lemma flush_meta_files:
  "cwd (fsys (flush_meta s)) = cwd (fsys s) \<and>
   meta_files (fsys (flush_meta s)) =
     AList.update (cwd (fsys s)) (Parsable (db s)) (meta_files (fsys s))"
  by (simp add: flush_meta_def write_meta_def)

lemma close_db_files:
  "cwd (fsys (close_db s)) = cwd (fsys s) \<and>
   meta_files (fsys (close_db s)) =
     AList.update (cwd (fsys s)) (Parsable (db s)) (meta_files (fsys s))"
  by (subst close_db_eq, subst close_db_eq) (simp add: write_meta_def)

lemma create_table_cwd: "cwd (fsys (final (create_table tn col_defs s))) = cwd (fsys s)"
  by (simp add: final_def create_table_def flush_meta_def rm_create_file_def rm_open_file_def
      cwd_write_meta Let_def split: prod.splits)

lemma drop_table_cwd: "cwd (fsys (final (drop_table tn s))) = cwd (fsys s)"
  by (simp add: final_def drop_table_def rm_close_file_def rm_destroy_file_def
      drop_indexes_frame Let_def split: prod.splits)

lemma create_index_cwd: "cwd (fsys (final (create_index tn col_names s))) = cwd (fsys s)"
  by (simp add: final_def create_index_def ix_create_index_def ix_open_index_def Let_def
      split: prod.splits sum.splits)

lemma erase_index_meta_fsys: "fsys (final (erase_index_meta tn col_names s)) = fsys s"
  by (simp add: final_def erase_index_meta_def split: sum.splits)

lemma drop_index_cwd: "cwd (fsys (final (drop_index tn col_names s))) = cwd (fsys s)"
  by (simp add: drop_index_def erase_index_meta_fsys ix_close_index_def ix_destroy_index_def
      Let_def split: prod.splits)

lemma drop_db_cwd: "cwd (fsys (final (drop_db n s))) = cwd (fsys s)"
  by (simp add: final_def drop_db_def cwd_rm_r)

text \<open>
  A \<^verbatim>\<open>create_db\<close> that returns went into the new database directory and from
  there to its parent.
\<close>

lemma create_db_cwd:
  assumes "create_db n s = Inr s2"
  shows "\<exists>p. resolve (mkdir n (fsys s)) n = Some p \<and> cwd (fsys s2) = butlast p"
proof -
  from assms have nd: "\<not> is_dir n (fsys s)"
    by (auto simp: create_db_def split: if_splits)
  with assms obtain p where p: "resolve (mkdir n (fsys s)) n = Some p"
    by (cases "resolve (mkdir n (fsys s)) n") (simp_all add: create_db_def chdir_def)
  with assms nd have "cwd (fsys s2) = butlast p"
    by (auto simp: create_db_def chdir_def resolve_parent write_meta_def
        disk_create_log_file_def Let_def)
  with p show ?thesis by blast
qed

text \<open>
  For a name of one component, that parent is the directory \<^verbatim>\<open>create_db\<close> was
  called in.
\<close>

lemma create_db_cwd_plain:
  assumes ok: "create_db n s = Inr s2" and plain: "CHR ''/'' \<notin> set n"
  shows "cwd (fsys s2) = cwd (fsys s)"
proof -
  from ok have nd: "\<not> is_dir n (fsys s)"
    by (auto simp: create_db_def split: if_splits)
  from create_db_cwd [OF ok] obtain p where
    p: "resolve (mkdir n (fsys s)) n = Some p" "cwd (fsys s2) = butlast p"
    by blast
  from p(1) have n1: "n \<noteq> []"
    by (auto simp: resolve_def)
  from nd have n2: "n \<noteq> ''.''" "n \<noteq> ''..''"
    by (auto simp: is_dir_def resolve_def start_dir_def)
  from p(1) resolve_plain [OF plain n1 n2, of "mkdir n (fsys s)"]
  have "p = cwd (fsys s) @ [n]"
    by (simp add: cwd_mkdir split: if_splits)
  with p(2) show ?thesis by simp
qed

text \<open>With the empty name \<^verbatim>\<open>mkdir\<close> makes nothing and \<^verbatim>\<open>chdir\<close> fails.\<close>

lemma create_db_empty_name: "create_db [] s = Inl (UnixError, s)"
  by (simp add: create_db_def is_dir_def resolve_def mkdir_def chdir_def)

text \<open>
  C10. An \<^verbatim>\<open>open_db\<close> whose body runs to its end has changed the working
  directory to the database directory (the change is made as soon as \<^verbatim>\<open>chdir\<close>
  succeeds, whatever follows). No other operation changes it: \<^verbatim>\<open>flush_meta\<close>
  and \<^verbatim>\<open>close_db\<close> return in the directory they were called in and write the
  metadata file of that directory; the table and index operations and
  \<^verbatim>\<open>drop_db\<close> leave the working directory alone, whether they return or
  throw. A \<^verbatim>\<open>create_db\<close> that returns has gone from the database directory
  back to its parent: for a name of one component this is the directory it was
  called in, for a name such as \<^verbatim>\<open>shop/x\<close> it is \<^verbatim>\<open>shop\<close>.
\<close>

theorem cwd_after_open_db:
  "(open_db_try n s = Inr s1 \<longrightarrow>
      is_dir n (fsys s) \<and> open_db n s = Inr s1 \<and> resolve (fsys s) n = Some (cwd (fsys s1))) \<and>
   (resolve (fsys s) n = Some p \<longrightarrow> cwd (fsys (final (open_db n s))) = p) \<and>
   cwd (fsys (flush_meta s)) = cwd (fsys s) \<and>
   meta_files (fsys (flush_meta s)) =
     AList.update (cwd (fsys s)) (Parsable (db s)) (meta_files (fsys s)) \<and>
   cwd (fsys (close_db s)) = cwd (fsys s) \<and>
   meta_files (fsys (close_db s)) =
     AList.update (cwd (fsys s)) (Parsable (db s)) (meta_files (fsys s)) \<and>
   cwd (fsys (final (create_table tn col_defs s))) = cwd (fsys s) \<and>
   cwd (fsys (final (drop_table tn s))) = cwd (fsys s) \<and>
   cwd (fsys (final (create_index tn col_names s))) = cwd (fsys s) \<and>
   cwd (fsys (final (drop_index tn col_names s))) = cwd (fsys s) \<and>
   cwd (fsys (final (drop_index_cols tn cs s))) = cwd (fsys s) \<and>
   cwd (fsys (final (drop_db n s))) = cwd (fsys s) \<and>
   (create_db n s = Inr s2 \<longrightarrow>
      (\<exists>q. resolve (mkdir n (fsys s)) n = Some q \<and> cwd (fsys s2) = butlast q) \<and>
      (CHR ''/'' \<notin> set n \<longrightarrow> cwd (fsys s2) = cwd (fsys s)))"
proof -
  have "cwd (fsys (final (drop_index_cols tn cs s))) = cwd (fsys s)"
    using drop_index_cwd [of tn "map col_name cs" s]
    by (simp add: drop_index_cols_def drop_index_def get_index_name_cols_def
        ix_destroy_index_cols_def Let_def)
  then show ?thesis
    using open_db_try_cwd [of n s s1] open_db_cwd [of s n p] flush_meta_files [of s]
      close_db_files [of s] create_table_cwd [of tn col_defs s] drop_table_cwd [of tn s]
      create_index_cwd [of tn col_names s] drop_index_cwd [of tn col_names s]
      drop_db_cwd [of n s] create_db_cwd [of n s s2] create_db_cwd_plain [of n s s2]
    by blast
qed

theorem cwd_after_open_db_witness:
  "create_db ''shop'' fresh = Inr shop_made \<and> CHR ''/'' \<notin> set ''shop'' \<and>
   cwd (fsys fresh) = [] \<and> cwd (fsys shop_made) = [] \<and>
   open_db_try ''shop'' shop_made = Inr shop_open \<and> is_dir ''shop'' (fsys shop_made) \<and>
   open_db ''shop'' shop_made = Inr shop_open \<and>
   resolve (fsys shop_made) ''shop'' = Some [''shop''] \<and>
   cwd (fsys shop_open) = [''shop''] \<and>
   cwd (fsys (final (open_db ''shop'' shop_made))) = [''shop''] \<and>
   cwd (fsys (close_db shop_open)) = [''shop''] \<and>
   meta_files (fsys (close_db shop_open)) = [([''shop''], Parsable (db shop_open))] \<and>
   create_db ''shop/x'' shop_made =
     Inr (shop_made\<lparr>fsys := (fsys shop_made)\<lparr>cwd := [''shop''],
            dirs := [[''shop''], [''shop'', ''x'']],
            meta_files := meta_files (fsys shop_made) @
              [([''shop'', ''x''], Parsable \<lparr>db_name = ''shop/x'', tabs = []\<rparr>)]\<rparr>,
          calls := [DiskCreateLogFile, DiskCreateLogFile]\<rparr>) \<and>
   resolve (mkdir ''shop/x'' (fsys shop_made)) ''shop/x'' = Some [''shop'', ''x'']"
proof -
  note t = cwd_after_open_db [where n = "''shop''" and s = shop_made and ?s1.0 = shop_open
      and p = "[''shop'']"]
  note u = cwd_after_open_db [where s = shop_open]
  note v = cwd_after_open_db [where n = "''shop''" and s = fresh and ?s2.0 = shop_made]
  have pl: "CHR ''/'' \<notin> set ''shop''"
    by simp
  have r: "resolve (fsys shop_made) ''shop'' = Some [''shop'']" "cwd (fsys fresh) = []"
    by (simp_all add: resolve_plain shop_made_def fresh_def)
  from t scenario_open_db_try
  have a0: "is_dir ''shop'' (fsys shop_made)" "open_db ''shop'' shop_made = Inr shop_open"
    "resolve (fsys shop_made) ''shop'' = Some (cwd (fsys shop_open))"
    by blast+
  from a0(3) r(1) have a3: "cwd (fsys shop_open) = [''shop'']"
    by simp
  from t r(1) have a4: "cwd (fsys (final (open_db ''shop'' shop_made))) = [''shop'']"
    by blast
  note a = a0(1,2) a3 a4
  from u a(3) have b: "cwd (fsys (close_db shop_open)) = [''shop'']"
    "meta_files (fsys (close_db shop_open)) =
       AList.update [''shop''] (Parsable (db shop_open)) (meta_files (fsys shop_open))"
    by simp_all
  have c: "meta_files (fsys (close_db shop_open)) = [([''shop''], Parsable (db shop_open))]"
    unfolding b(2) by (simp add: shop_open_def)
  from v scenario_create_db pl have d: "cwd (fsys shop_made) = []"
    by (simp add: r)
  have sp: "split_path ''shop/x'' = [''shop'', ''x'']"
    by simp
  have m: "mkdir ''shop/x'' (fsys shop_made) =
      (fsys shop_made)\<lparr>dirs := [[''shop''], [''shop'', ''x'']]\<rparr>"
    by (simp add: mkdir_def sp start_dir_def shop_made_def)
  have e: "resolve (mkdir ''shop/x'' (fsys shop_made)) ''shop/x'' = Some [''shop'', ''x'']"
    unfolding m by (simp add: resolve_def sp start_dir_def shop_made_def)
  have mf: "meta_files (fsys shop_made) =
      [([''shop''], Parsable \<lparr>db_name = ''shop'', tabs = []\<rparr>)]"
    "calls shop_made = [DiskCreateLogFile]"
    by (simp_all add: shop_made_def)
  have nd: "\<not> is_dir ''shop/x'' (fsys shop_made)"
    by (simp add: is_dir_def resolve_def sp start_dir_def shop_made_def)
  have f: "create_db ''shop/x'' shop_made =
     Inr (shop_made\<lparr>fsys := (fsys shop_made)\<lparr>cwd := [''shop''],
            dirs := [[''shop''], [''shop'', ''x'']],
            meta_files := meta_files (fsys shop_made) @
              [([''shop'', ''x''], Parsable \<lparr>db_name = ''shop/x'', tabs = []\<rparr>)]\<rparr>,
          calls := [DiskCreateLogFile, DiskCreateLogFile]\<rparr>)"
    using nd e
    by (simp add: create_db_def chdir_def m resolve_parent write_meta_def
        disk_create_log_file_def mf)
  from a b(1) c d e f pl r scenario_create_db scenario_open_db_try show ?thesis
    by blast
qed

section \<open>drop\_table and the metadata file\<close>

text \<open>
  \<^verbatim>\<open>drop_table\<close> has no \<^verbatim>\<open>flush_meta\<close>: whatever it does, the metadata files
  are as before.
\<close>

lemma drop_table_meta_files:
  "meta_files (fsys (final (drop_table tn s))) = meta_files (fsys s)"
  by (simp add: final_def drop_table_def rm_close_file_def rm_destroy_file_def
      drop_indexes_frame Let_def split: prod.splits)

text \<open>
  C7 at the table \<^verbatim>\<open>orders\<close> of the scenario. \<^verbatim>\<open>create_table\<close> wrote the
  schema with \<^verbatim>\<open>orders\<close> to the metadata file. \<^verbatim>\<open>drop_table\<close> returns, the
  table is gone from the schema in memory, and the metadata file still holds the
  schema with \<^verbatim>\<open>orders\<close> in it.
\<close>

theorem drop_table_keeps_meta_file:
  "read_meta (fsys shop_orders) = Inr orders_db \<and> is_table orders_db ''orders'' \<and>
   (\<exists>s'. drop_table ''orders'' shop_orders = Inr s' \<and>
      \<not> is_table (db s') ''orders'' \<and> tabs (db s') = [] \<and>
      read_meta (fsys s') = Inr orders_db)"
  by (simp add: drop_table_def shop_orders_def orders_db_def is_table_def subscript_def
      rm_close_file_def rm_destroy_file_def read_meta_def Let_def)

section \<open>drop\_index on an index that is not registered\<close>

text \<open>
  Whenever the identity has no entry in \<^verbatim>\<open>ihs_\<close>, \<^verbatim>\<open>drop_index\<close> hands the
  null pointer of the entry that \<^verbatim>\<open>operator[]\<close> made to \<^verbatim>\<open>close_index\<close>, and
  goes on to \<^verbatim>\<open>destroy_index\<close>.
\<close>

lemma drop_index_unregistered_calls:
  assumes "map_of (ihs s) (get_index_name tn col_names) = None"
  shows "calls (final (drop_index tn col_names s)) =
           calls s @ [IxCloseIndex None, IxDestroyIndex tn col_names]"
  using assms
  by (simp add: final_def drop_index_def erase_index_meta_def subscript_absent
      ix_close_index_def ix_destroy_index_def Let_def split: sum.splits)

theorem drop_index_unregistered_calls_witness:
  "map_of (ihs shop_orders) (get_index_name ''orders'' [''total'']) = None \<and>
   calls (final (drop_index ''orders'' [''total''] shop_orders)) =
     calls shop_orders @ [IxCloseIndex None, IxDestroyIndex ''orders'' [''total'']]"
proof -
  have a: "map_of (ihs shop_orders) (get_index_name ''orders'' [''total'']) = None"
    by (simp add: shop_orders_def)
  from drop_index_unregistered_calls [OF a] a show ?thesis
    by blast
qed

text \<open>
  C9 at the table \<^verbatim>\<open>orders\<close> of the scenario, which has no index. The
  identity of an index on \<^verbatim>\<open>id\<close> is not registered; \<^verbatim>\<open>drop_index\<close> calls
  \<^verbatim>\<open>close_index\<close> with a null handle and \<^verbatim>\<open>destroy_index\<close>, and only the
  lookup of the index definition in the schema, after both, throws.
\<close>

theorem drop_index_unregistered_proceeds:
  "map_of (ihs shop_orders) (get_index_name ''orders'' [''id'']) = None \<and>
   (\<exists>s'. drop_index ''orders'' [''id''] shop_orders = Inl (IndexNotFoundError ''orders'' [''id''], s') \<and>
      calls s' = calls shop_orders @ [IxCloseIndex None, IxDestroyIndex ''orders'' [''id'']])"
  by (simp add: drop_index_def erase_index_meta_def get_table_def get_index_meta_def
      subscript_def ix_close_index_def ix_destroy_index_def get_index_name_def
      shop_orders_def orders_db_def Let_def)

section \<open>create\_index on a table that does not exist\<close>

lemma scenario_I2: "I2 shop_open"
  by (simp add: I2_def index_ids_def shop_open_def)

text \<open>
  C1 at the open, empty database of the scenario, where I1 and I2 hold. With no
  column name the loop that looks the table up does not run; \<^verbatim>\<open>create_index\<close>
  on the table \<^verbatim>\<open>ghost\<close>, which does not exist, returns, and
  \<^verbatim>\<open>db_.tabs_[tab_name]\<close> has put a table \<^verbatim>\<open>ghost\<close> into the schema that has no
  record-file handle: I1 does not hold any more.
\<close>

theorem create_index_ghost_table:
  "I1 shop_open \<and> I2 shop_open \<and> \<not> is_table (db shop_open) ''ghost'' \<and>
   (\<exists>s'. create_index ''ghost'' [] shop_open = Inr s' \<and>
      is_table (db s') ''ghost'' \<and> fhs s' = [] \<and> \<not> I1 s')"
proof -
  have "\<exists>s'. create_index ''ghost'' [] shop_open = Inr s' \<and>
      is_table (db s') ''ghost'' \<and> fhs s' = [] \<and> \<not> I1 s'"
    by (simp add: create_index_def ix_exists_def ix_create_index_def ix_open_index_def
        emplace_def subscript_def default_TabMeta_def is_table_def I1_def shop_open_def Let_def)
  moreover have "\<not> is_table (db shop_open) ''ghost''"
    by (simp add: is_table_def shop_open_def)
  ultimately show ?thesis
    using scenario_I1 scenario_I2 by blast
qed

section \<open>create\_index and the indexed flag\<close>

lemma add_col_lens_cols: "ix_cols (add_col_lens im cs) = ix_cols im"
  by (induction cs arbitrary: im) simp_all

lemma get_col_name: "get_col t cn = Inr c \<Longrightarrow> col_name c = cn \<and> c \<in> set (cols t)"
  by (auto simp: get_col_def find_Some_iff split: option.splits)

lemma index_columns_of_step:
  assumes "index_columns_of d tn (cn # ns) acc = Inr cs" and "get_table d tn = Inr tab"
  shows "\<exists>c. get_col tab cn = Inr c \<and> index_columns_of d tn ns (acc @ [c]) = Inr cs"
proof (cases "get_col tab cn")
  case (Inl e)
  with assms show ?thesis by simp
next
  case (Inr c)
  with assms show ?thesis by simp
qed

lemma index_columns_of_names:
  assumes "index_columns_of d tn ns acc = Inr cs" and "get_table d tn = Inr tab"
  shows "\<exists>cs'. cs = acc @ cs' \<and> map col_name cs' = ns \<and> set cs' \<subseteq> set (cols tab)"
  using assms
proof (induction ns arbitrary: acc)
  case Nil
  then show ?case by simp
next
  case (Cons cn ns)
  from index_columns_of_step [OF Cons.prems] obtain c where c: "get_col tab cn = Inr c"
    and rest: "index_columns_of d tn ns (acc @ [c]) = Inr cs"
    by blast
  from Cons.IH [OF rest Cons.prems(2)] obtain cs' where
    cs': "cs = (acc @ [c]) @ cs'" "map col_name cs' = ns" "set cs' \<subseteq> set (cols tab)"
    by blast
  from get_col_name [OF c] have gc: "col_name c = cn" "c \<in> set (cols tab)"
    by simp_all
  show ?case
  proof (intro exI conjI)
    show "cs = acc @ (c # cs')" using cs'(1) by simp
    show "map col_name (c # cs') = cn # ns" using cs'(2) gc(1) by simp
    show "set (c # cs') \<subseteq> set (cols tab)" using cs'(3) gc(2) by simp
  qed
qed

text \<open>What a \<^verbatim>\<open>create_index\<close> that returns has done, in one equation.\<close>

lemma create_index_eq:
  assumes "\<not> ix_exists tn ns s" and "index_columns_of (db s) tn ns [] = Inr cs"
    and "map_of (tabs (db s)) tn = Some tab"
  shows "create_index tn ns s = Inr (s\<lparr>
      db := (db s)\<lparr>tabs :=
        AList.update tn (tab\<lparr>indexes := indexes tab @ [new_index_meta tn cs]\<rparr>) (tabs (db s))\<rparr>,
      ihs := emplace (get_index_name tn ns) (Some (IxIndexHandle (get_index_name_cols tn cs))) (ihs s),
      fsys := (fsys s)\<lparr>ix_files :=
        List.insert (cwd (fsys s), get_index_name_cols tn cs) (ix_files (fsys s))\<rparr>,
      calls := calls s @ [IxCreateIndex tn cs, IxOpenIndex tn cs]\<rparr>)"
  using assms
  by (simp add: create_index_def ix_create_index_def ix_open_index_def subscript_present
      new_index_meta_def Let_def)

text \<open>
  C8, as the code has it. A \<^verbatim>\<open>create_index\<close> that returns, on a table that
  exists, leaves the columns of the table as they are, the indexed flag of each
  one included, so that \<^verbatim>\<open>desc_table\<close> reports what it reported before. The
  index is recorded as one more index definition at the end of the table's list,
  over copies of the columns named.
\<close>

theorem create_index_keeps_cols:
  assumes ok: "create_index tn col_names s = Inr s'" and tab: "get_table (db s) tn = Inr tab"
  shows "\<exists>im. get_table (db s') tn = Inr (tab\<lparr>indexes := indexes tab @ [im]\<rparr>) \<and>
           map col_name (ix_cols im) = col_names \<and> set (ix_cols im) \<subseteq> set (cols tab) \<and>
           desc_table tn s' = desc_table tn s"
proof -
  from ok have ne: "\<not> ix_exists tn col_names s"
    by (auto simp: create_index_def split: if_splits)
  with ok obtain cs where cs: "index_columns_of (db s) tn col_names [] = Inr cs"
    by (cases "index_columns_of (db s) tn col_names []") (simp_all add: create_index_def)
  from index_columns_of_names [OF cs tab]
  have names: "map col_name cs = col_names" "set cs \<subseteq> set (cols tab)"
    by auto
  from tab have mo: "map_of (tabs (db s)) tn = Some tab"
    by (cases "map_of (tabs (db s)) tn") (simp_all add: get_table_def)
  from ok create_index_eq [OF ne cs mo]
  have t': "get_table (db s') tn = Inr (tab\<lparr>indexes := indexes tab @ [new_index_meta tn cs]\<rparr>)"
    by (auto simp: get_table_def update_conv')
  have "ix_cols (new_index_meta tn cs) = cs"
    by (simp add: new_index_meta_def add_col_lens_cols)
  with names t' tab show ?thesis
    by (intro exI [of _ "new_index_meta tn cs"]) (simp add: desc_table_def)
qed

lemma orders_total_columns:
  "index_columns_of (db shop_orders) ''orders'' [''total''] [] = Inr [total_col]"
  by (simp add: get_table_def get_col_def shop_orders_def orders_db_def id_col_def total_col_def)

lemma orders_id_columns:
  "index_columns_of (db shop_orders) ''orders'' [''id''] [] = Inr [id_col]"
  by (simp add: get_table_def get_col_def shop_orders_def orders_db_def id_col_def total_col_def)

lemma orders_table:
  "map_of (tabs (db shop_orders)) ''orders'' =
     Some \<lparr>tab_name = ''orders'', cols = [id_col, total_col], indexes = []\<rparr>"
  by (simp add: shop_orders_def orders_db_def)

lemma orders_no_index: "\<not> ix_exists ''orders'' ns shop_orders"
  by (simp add: ix_exists_def shop_orders_def)

theorem create_index_keeps_cols_witness:
  "get_table (db shop_orders) ''orders'' =
     Inr \<lparr>tab_name = ''orders'', cols = [id_col, total_col], indexes = []\<rparr> \<and>
   (\<exists>s'. create_index ''orders'' [''total''] shop_orders = Inr s' \<and>
      (\<exists>im. get_table (db s') ''orders'' =
               Inr \<lparr>tab_name = ''orders'', cols = [id_col, total_col], indexes = [im]\<rparr> \<and>
             map col_name (ix_cols im) = [''total'']) \<and>
      desc_table ''orders'' s' = desc_table ''orders'' shop_orders)"
proof -
  have t: "get_table (db shop_orders) ''orders'' =
     Inr \<lparr>tab_name = ''orders'', cols = [id_col, total_col], indexes = []\<rparr>"
    by (simp add: get_table_def orders_table)
  from create_index_eq [OF orders_no_index orders_total_columns orders_table]
  obtain s' where c: "create_index ''orders'' [''total''] shop_orders = Inr s'"
    by blast
  from create_index_keeps_cols [OF c t] c t show ?thesis
    by auto
qed

text \<open>
  The claim C8 as the spec states it fails: after \<^verbatim>\<open>create_index\<close> on the
  column \<^verbatim>\<open>id\<close> of \<^verbatim>\<open>orders\<close> has returned, the flag of \<^verbatim>\<open>id\<close> is false and
  \<^verbatim>\<open>desc_table\<close> reports \<^verbatim>\<open>NO\<close> for it.
\<close>

theorem create_index_flag_stays_false:
  "\<exists>s'. create_index ''orders'' [''id''] shop_orders = Inr s' \<and>
      (\<exists>tab. get_table (db s') ''orders'' = Inr tab \<and> map col_index (cols tab) = [False, False] \<and>
         map (\<lambda>im. map col_name (ix_cols im)) (indexes tab) = [[''id'']]) \<and>
      desc_table ''orders'' s' = Inr [[''id'', ''INT'', ''NO''], [''total'', ''INT'', ''NO'']]"
proof -
  note c = create_index_eq [OF orders_no_index orders_id_columns orders_table]
  have n: "ix_cols (new_index_meta ''orders'' [id_col]) = [id_col]"
    by (simp add: new_index_meta_def add_col_lens_cols)
  have f: "field_info id_col = [''id'', ''INT'', ''NO'']"
    "field_info total_col = [''total'', ''INT'', ''NO'']"
    by (simp_all add: field_info_def coltype2str_def id_col_def total_col_def)
  have i: "col_index id_col = False" "col_index total_col = False" "col_name id_col = ''id''"
    by (simp_all add: id_col_def total_col_def)
  show ?thesis
    unfolding c by (simp add: get_table_def desc_table_def update_conv' n f i)
qed

section \<open>The invariants I1 and I2 under the table and index operations\<close>

subsection \<open>Identities of the index definitions\<close>

lemma update_absent: "map_of m k = None \<Longrightarrow> AList.update k v m = m @ [(k, v)]"
  by (induction m) (auto split: if_splits)

lemma index_ids_append: "index_ids (a @ b) = index_ids a @ index_ids b"
  by (simp add: index_ids_def)

lemma index_ids_Cons:
  "index_ids (e # ts) =
     map (\<lambda>im. get_index_name_cols (fst e) (ix_cols im)) (indexes (snd e)) @ index_ids ts"
  by (simp add: index_ids_def)

lemma index_ids_Nil: "index_ids [] = []"
  by (simp add: index_ids_def)

lemma fst_get_index_name_cols: "fst (get_index_name_cols tn cs) = tn"
  by (simp add: get_index_name_cols_def get_index_name_def)

lemma filter_ids_other:
  "filter (\<lambda>k. fst k \<noteq> tn) (map (\<lambda>im. get_index_name_cols t (ix_cols im)) ims) =
     (if t = tn then [] else map (\<lambda>im. get_index_name_cols t (ix_cols im)) ims)"
  by (induction ims) (simp_all add: fst_get_index_name_cols)

lemma index_ids_delete:
  "index_ids (AList.delete tn ts) = filter (\<lambda>k. fst k \<noteq> tn) (index_ids ts)"
proof (induction ts)
  case Nil
  then show ?case by (simp add: index_ids_Nil)
next
  case (Cons e ts)
  obtain t tm where e: "e = (t, tm)" by (cases e)
  show ?case
  proof (cases "t = tn")
    case True
    with Cons e show ?thesis
      by (simp add: index_ids_Cons filter_ids_other)
  next
    case False
    with Cons e show ?thesis
      by (simp add: index_ids_Cons filter_ids_other)
  qed
qed

text \<open>
  Replacing the value of a table that exists changes the identities of that
  table alone, in place.
\<close>

lemma index_ids_update:
  assumes "map_of ts tn = Some tab"
  shows "\<exists>A B. index_ids ts =
             A @ map (\<lambda>im. get_index_name_cols tn (ix_cols im)) (indexes tab) @ B \<and>
           (\<forall>tab'. index_ids (AList.update tn tab' ts) =
             A @ map (\<lambda>im. get_index_name_cols tn (ix_cols im)) (indexes tab') @ B)"
  using assms
proof (induction ts)
  case Nil
  then show ?case by simp
next
  case (Cons e ts)
  obtain t tm where e: "e = (t, tm)" by (cases e)
  show ?case
  proof (cases "t = tn")
    case True
    with Cons.prems e have "tm = tab" by simp
    with True e have "index_ids (e # ts) =
        [] @ map (\<lambda>im. get_index_name_cols tn (ix_cols im)) (indexes tab) @ index_ids ts \<and>
      (\<forall>tab'. index_ids (AList.update tn tab' (e # ts)) =
        [] @ map (\<lambda>im. get_index_name_cols tn (ix_cols im)) (indexes tab') @ index_ids ts)"
      by (simp add: index_ids_Cons)
    then show ?thesis by blast
  next
    case False
    with Cons.prems e have "map_of ts tn = Some tab" by simp
    from Cons.IH [OF this] obtain A B where
      ab: "index_ids ts = A @ map (\<lambda>im. get_index_name_cols tn (ix_cols im)) (indexes tab) @ B"
        "\<And>tab'. index_ids (AList.update tn tab' ts) =
             A @ map (\<lambda>im. get_index_name_cols tn (ix_cols im)) (indexes tab') @ B"
      by blast
    let ?A = "map (\<lambda>im. get_index_name_cols t (ix_cols im)) (indexes tm) @ A"
    from False e ab have "index_ids (e # ts) =
        ?A @ map (\<lambda>im. get_index_name_cols tn (ix_cols im)) (indexes tab) @ B \<and>
      (\<forall>tab'. index_ids (AList.update tn tab' (e # ts)) =
        ?A @ map (\<lambda>im. get_index_name_cols tn (ix_cols im)) (indexes tab') @ B)"
      by (simp add: index_ids_Cons)
    then show ?thesis by blast
  qed
qed

text \<open>With distinct table names, the identities under a table name are those of its table.\<close>

lemma index_ids_of_table:
  assumes "distinct (map fst ts)" and "map_of ts tn = Some tab"
    and "k \<in> set (index_ids ts)" and "fst k = tn"
  shows "k \<in> set (map (\<lambda>im. get_index_name_cols tn (ix_cols im)) (indexes tab))"
proof -
  from assms(3) obtain e im where e: "e \<in> set ts" "im \<in> set (indexes (snd e))"
    "k = get_index_name_cols (fst e) (ix_cols im)"
    by (auto simp: index_ids_def)
  with assms(4) have "fst e = tn"
    by (simp add: fst_get_index_name_cols)
  then have "e = (tn, snd e)"
    by (cases e) simp
  with e(1) have "(tn, snd e) \<in> set ts"
    by metis
  with assms(1,2) have "snd e = tab"
    by (simp add: map_of_eq_Some_iff)
  with e \<open>fst e = tn\<close> show ?thesis
    by auto
qed

lemma erase_at_map: "map f (erase_at i xs) = erase_at i (map f xs)"
  by (simp add: erase_at_def take_map drop_map)

lemma index_pos_nth:
  assumes "index_pos ims ns = Some i"
  shows "i < length ims \<and> map col_name (ix_cols (ims ! i)) = ns"
  using assms
proof (induction ims arbitrary: i)
  case Nil
  then show ?case by simp
next
  case (Cons im ims)
  show ?case
  proof (cases "map col_name (ix_cols im) = ns")
    case True
    with Cons.prems show ?thesis by simp
  next
    case False
    with Cons.prems obtain j where j: "index_pos ims ns = Some j" "i = Suc j"
      by (cases "index_pos ims ns") simp_all
    with Cons.IH [OF j(1)] show ?thesis by simp
  qed
qed

lemma erase_at_split: "i < length xs \<Longrightarrow> xs = take i xs @ [xs ! i] @ drop (Suc i) xs"
  by (simp add: id_take_nth_drop)
subsection \<open>create\_table\<close>

lemma create_table_eq:
  assumes "\<not> is_table (db s) tn"
  shows "create_table tn col_defs s = Inr (s\<lparr>
      db := (db s)\<lparr>tabs := AList.update tn
        \<lparr>tab_name = tn, cols = fst (build_cols tn col_defs 0 []), indexes = []\<rparr> (tabs (db s))\<rparr>,
      fhs := emplace tn (Some (RmFileHandle tn)) (fhs s),
      fsys := write_meta ((db s)\<lparr>tabs := AList.update tn
        \<lparr>tab_name = tn, cols = fst (build_cols tn col_defs 0 []), indexes = []\<rparr> (tabs (db s))\<rparr>)
        (fsys s),
      calls := calls s @ [RmCreateFile tn (snd (build_cols tn col_defs 0 [])), RmOpenFile tn]\<rparr>)"
  using assms
  by (simp add: create_table_def rm_create_file_def rm_open_file_def flush_meta_def
      case_prod_beta Let_def)

lemma create_table_inv:
  assumes i1: "I1 s" and i2: "I2 s" and sy: "ix_synced s"
    and ok: "create_table tn col_defs s = Inr s'"
  shows "I1 s' \<and> I2 s' \<and> ix_synced s'"
proof -
  from ok have nt: "\<not> is_table (db s) tn"
    by (auto simp: create_table_def split: if_splits)
  then have t_none: "map_of (tabs (db s)) tn = None"
    by (simp add: is_table_def split: option.splits)
  then have t_new: "tn \<notin> set (map fst (tabs (db s)))"
    by (simp add: map_of_None_keys)
  with i1 have f_new: "tn \<notin> set (map fst (fhs s))"
    by (simp add: I1_def)
  then have f_none: "map_of (fhs s) tn = None"
    by (simp add: map_of_None_keys)
  note s' = ok [unfolded create_table_eq [OF nt], simplified, symmetric]
  have tabs': "tabs (db s') = tabs (db s) @
      [(tn, \<lparr>tab_name = tn, cols = fst (build_cols tn col_defs 0 []), indexes = []\<rparr>)]"
    by (subst s') (simp add: update_absent [OF t_none])
  have fhs': "fhs s' = fhs s @ [(tn, Some (RmFileHandle tn))]"
    by (subst s') (simp add: emplace_absent [OF f_none])
  have ihs': "ihs s' = ihs s"
    by (subst s') simp
  have fs': "cwd (fsys s') = cwd (fsys s)" "ix_files (fsys s') = ix_files (fsys s)"
    by (subst s', simp add: write_meta_def)+
  have "I1 s'"
    using i1 t_new f_new by (simp add: I1_def tabs' fhs')
  moreover have "I2 s'"
    using i2 by (simp add: I2_def tabs' ihs' index_ids_append index_ids_Cons index_ids_Nil)
  moreover have "ix_synced s'"
    using sy by (simp add: ix_synced_def ihs' fs')
  ultimately show ?thesis by blast
qed

subsection \<open>drop\_table\<close>

lemma delete_filter: "AList.delete k m = filter (\<lambda>e. fst e \<noteq> k) m"
  by (induction m) auto

lemma delete_subscript: "AList.delete k (snd (subscript d m k)) = AList.delete k m"
  by (simp add: subscript_def delete_snoc_same split: option.splits)

lemma drop_indexes_ihs:
  "ihs (drop_indexes tn ims s) =
     filter (\<lambda>e. fst e \<notin> set (map (\<lambda>im. get_index_name_cols tn (ix_cols im)) ims)) (ihs s)"
proof (induction ims arbitrary: s)
  case Nil
  then show ?case by simp
next
  case (Cons im ims)
  have "ihs (drop_indexes tn (im # ims) s) =
      filter (\<lambda>e. fst e \<notin> set (map (\<lambda>im. get_index_name_cols tn (ix_cols im)) ims))
        (AList.delete (get_index_name_cols tn (ix_cols im)) (ihs s))"
    by (simp add: Cons.IH case_prod_beta ix_close_index_def ix_destroy_index_cols_def
        ix_destroy_index_def delete_subscript Let_def)
  then show ?case
    by (simp add: delete_filter conj_commute)
qed

lemma drop_indexes_ix_files:
  "set (ix_files (fsys (drop_indexes tn ims s))) =
     set (ix_files (fsys s)) -
       (\<lambda>im. (cwd (fsys s), get_index_name_cols tn (ix_cols im))) ` set ims"
proof (induction ims arbitrary: s)
  case Nil
  then show ?case by simp
next
  case (Cons im ims)
  define s3 where "s3 =
    (ix_destroy_index_cols tn (ix_cols im)
      (ix_close_index (fst (subscript None (ihs s) (get_index_name_cols tn (ix_cols im))))
        (s\<lparr>ihs := snd (subscript None (ihs s) (get_index_name_cols tn (ix_cols im)))\<rparr>)))
    \<lparr>ihs := AList.delete (get_index_name_cols tn (ix_cols im))
       (snd (subscript None (ihs s) (get_index_name_cols tn (ix_cols im))))\<rparr>"
  have step: "drop_indexes tn (im # ims) s = drop_indexes tn ims s3"
    by (simp add: s3_def case_prod_beta ix_close_index_def ix_destroy_index_cols_def
        ix_destroy_index_def Let_def)
  have c3: "cwd (fsys s3) = cwd (fsys s)"
    by (simp add: s3_def ix_close_index_def ix_destroy_index_cols_def ix_destroy_index_def)
  have f3: "set (ix_files (fsys s3)) =
      set (ix_files (fsys s)) - {(cwd (fsys s), get_index_name_cols tn (ix_cols im))}"
    by (simp add: s3_def ix_close_index_def ix_destroy_index_cols_def ix_destroy_index_def
        get_index_name_cols_def)
  show ?case
    unfolding step Cons.IH c3 f3 by auto
qed

lemma drop_table_state:
  assumes tab: "map_of (tabs (db s)) tn = Some tab" and ok: "drop_table tn s = Inr s'"
  shows "tabs (db s') = AList.delete tn (tabs (db s)) \<and>
         fhs s' = AList.delete tn (fhs s) \<and>
         ihs s' = filter (\<lambda>e. fst e \<notin>
                    set (map (\<lambda>im. get_index_name_cols tn (ix_cols im)) (indexes tab))) (ihs s) \<and>
         cwd (fsys s') = cwd (fsys s) \<and>
         set (ix_files (fsys s')) = set (ix_files (fsys s)) -
           (\<lambda>im. (cwd (fsys s), get_index_name_cols tn (ix_cols im))) ` set (indexes tab)"
proof -
  define s2 where "s2 = rm_destroy_file tn
    (rm_close_file (fst (subscript None (fhs s) tn)) (s\<lparr>fhs := snd (subscript None (fhs s) tn)\<rparr>))"
  define s3 where "s3 = drop_indexes tn (indexes tab) s2"
  have s2: "db s2 = db s" "fhs s2 = snd (subscript None (fhs s) tn)" "ihs s2 = ihs s"
    "fsys s2 = fsys s"
    by (simp_all add: s2_def rm_destroy_file_def rm_close_file_def)
  from tab have it: "is_table (db s) tn"
    by (simp add: is_table_def)
  have "drop_table tn s = Inr (s3\<lparr>db := (db s3)\<lparr>tabs := AList.delete tn (tabs (db s3))\<rparr>,
      fhs := AList.delete tn (fhs s3)\<rparr>)"
    using it tab
    by (simp add: drop_table_def case_prod_beta Let_def subscript_present
        rm_destroy_file_def rm_close_file_def s3_def s2_def)
  with ok have s': "s' = s3\<lparr>db := (db s3)\<lparr>tabs := AList.delete tn (tabs (db s3))\<rparr>,
      fhs := AList.delete tn (fhs s3)\<rparr>"
    by simp
  have s3: "db s3 = db s" "fhs s3 = snd (subscript None (fhs s) tn)"
    "cwd (fsys s3) = cwd (fsys s)"
    by (simp_all add: s3_def drop_indexes_frame s2)
  show ?thesis
    unfolding s' using drop_indexes_ihs [of tn "indexes tab" s2]
      drop_indexes_ix_files [of tn "indexes tab" s2]
    by (simp add: s3 delete_subscript s2 flip: s3_def)
qed

lemma keys_filter_notin:
  "set (map fst (filter (\<lambda>e. fst e \<notin> S) m)) = set (map fst m) - S"
  by auto

lemma drop_table_inv:
  assumes i1: "I1 s" and i2: "I2 s" and sy: "ix_synced s"
    and ok: "drop_table tn s = Inr s'"
  shows "I1 s' \<and> I2 s' \<and> ix_synced s'"
proof -
  from ok have "is_table (db s) tn"
    by (auto simp: drop_table_def split: if_splits)
  then obtain tab where tab: "map_of (tabs (db s)) tn = Some tab"
    by (auto simp: is_table_def split: option.splits)
  let ?ids = "map (\<lambda>im. get_index_name_cols tn (ix_cols im)) (indexes tab)"
  note st = drop_table_state [OF tab ok]
  from i1 have dt: "distinct (map fst (tabs (db s)))"
    by (simp add: I1_def)
  have "I1 s'"
  proof -
    have "distinct (map fst (tabs (db s')))" "distinct (map fst (fhs s'))"
      using i1 by (simp_all add: I1_def st distinct_delete)
    moreover have "set (map fst (tabs (db s'))) = set (map fst (fhs s'))"
      using i1 by (simp add: I1_def st delete_keys)
    moreover have "list_all (\<lambda>e. snd e \<noteq> None) (fhs s')"
      using i1 by (simp add: I1_def st delete_filter list_all_iff)
    ultimately show ?thesis
      by (simp add: I1_def)
  qed
  moreover have "I2 s'"
  proof -
    have a: "distinct (index_ids (tabs (db s')))"
      using i2 by (simp add: I2_def st index_ids_delete)
    have b: "distinct (map fst (ihs s'))"
      using i2 by (simp add: I2_def st distinct_map_filter)
    have "k \<notin> set ?ids \<longleftrightarrow> fst k \<noteq> tn" if "k \<in> set (index_ids (tabs (db s)))" for k
      using index_ids_of_table [OF dt tab that] by (auto simp: fst_get_index_name_cols)
    then have c: "set (index_ids (tabs (db s'))) = set (map fst (ihs s'))"
      using i2 unfolding I2_def by (simp add: st index_ids_delete keys_filter_notin) blast
    have d: "list_all (\<lambda>e. snd e \<noteq> None) (ihs s')"
      using i2 by (simp add: I2_def st list_all_iff)
    from a b c d show ?thesis
      by (simp add: I2_def)
  qed
  moreover have "ix_synced s'"
    using sy by (auto simp: ix_synced_def st list_all_iff)
  ultimately show ?thesis by blast
qed
subsection \<open>drop\_index\<close>

lemma drop_index_state:
  assumes ok: "drop_index tn ns s = Inr s'"
  shows "\<exists>tab i. map_of (tabs (db s)) tn = Some tab \<and> index_pos (indexes tab) ns = Some i \<and>
           tabs (db s') =
             AList.update tn (tab\<lparr>indexes := erase_at i (indexes tab)\<rparr>) (tabs (db s)) \<and>
           fhs s' = fhs s \<and> ihs s' = AList.delete (tn, ns) (ihs s) \<and>
           cwd (fsys s') = cwd (fsys s) \<and>
           ix_files (fsys s') = removeAll (cwd (fsys s), (tn, ns)) (ix_files (fsys s))"
proof -
  define s3 where "s3 =
    (ix_destroy_index tn ns
      (ix_close_index (fst (subscript None (ihs s) (tn, ns)))
        (s\<lparr>ihs := snd (subscript None (ihs s) (tn, ns))\<rparr>)))
    \<lparr>ihs := AList.delete (tn, ns) (snd (subscript None (ihs s) (tn, ns)))\<rparr>"
  have d: "drop_index tn ns s = erase_index_meta tn ns s3"
    by (simp add: drop_index_def s3_def get_index_name_def case_prod_beta
        ix_close_index_def ix_destroy_index_def Let_def)
  have s3: "db s3 = db s" "fhs s3 = fhs s" "ihs s3 = AList.delete (tn, ns) (ihs s)"
    "cwd (fsys s3) = cwd (fsys s)"
    "ix_files (fsys s3) = removeAll (cwd (fsys s), (tn, ns)) (ix_files (fsys s))"
    by (simp_all add: s3_def ix_close_index_def ix_destroy_index_def get_index_name_def
        delete_subscript)
  from ok d have e: "erase_index_meta tn ns s3 = Inr s'"
    by simp
  then obtain tab where tab: "map_of (tabs (db s3)) tn = Some tab"
    by (cases "map_of (tabs (db s3)) tn") (simp_all add: erase_index_meta_def get_table_def)
  with e obtain i where i: "index_pos (indexes tab) ns = Some i"
    by (cases "index_pos (indexes tab) ns")
      (simp_all add: erase_index_meta_def get_table_def get_index_meta_def)
  from e tab i have "s' = s3\<lparr>db := (db s3)\<lparr>tabs :=
      AList.update tn (tab\<lparr>indexes := erase_at i (indexes tab)\<rparr>) (tabs (db s3))\<rparr>\<rparr>"
    by (simp add: erase_index_meta_def get_table_def get_index_meta_def)
  with tab i s3 show ?thesis
    by simp
qed

lemma update_keys_present:
  "map_of m k = Some v \<Longrightarrow> map fst (AList.update k w m) = map fst m"
  by (induction m) (auto split: if_splits)

lemma drop_index_inv:
  assumes i1: "I1 s" and i2: "I2 s" and sy: "ix_synced s"
    and ok: "drop_index tn ns s = Inr s'"
  shows "I1 s' \<and> I2 s' \<and> ix_synced s'"
proof -
  from drop_index_state [OF ok] obtain tab i where
    tab: "map_of (tabs (db s)) tn = Some tab" and i: "index_pos (indexes tab) ns = Some i"
    and st: "tabs (db s') =
        AList.update tn (tab\<lparr>indexes := erase_at i (indexes tab)\<rparr>) (tabs (db s))"
      "fhs s' = fhs s" "ihs s' = AList.delete (tn, ns) (ihs s)"
      "cwd (fsys s') = cwd (fsys s)"
      "ix_files (fsys s') = removeAll (cwd (fsys s), (tn, ns)) (ix_files (fsys s))"
    by blast
  let ?f = "\<lambda>im. get_index_name_cols tn (ix_cols im)"
  let ?X = "map ?f (indexes tab)"
  from index_ids_update [OF tab] obtain A B where
    ab: "index_ids (tabs (db s)) = A @ ?X @ B"
      "index_ids (tabs (db s')) = A @ erase_at i ?X @ B"
    unfolding st(1) by (auto simp: erase_at_map)
  from index_pos_nth [OF i] have il: "i < length ?X" and xi: "?X ! i = (tn, ns)"
    by (simp_all add: get_index_name_cols_def get_index_name_def)
  from erase_at_split [OF il] xi
  have X: "?X = take i ?X @ [(tn, ns)] @ drop (Suc i) ?X"
    by simp
  have E: "erase_at i ?X = take i ?X @ drop (Suc i) ?X"
    by (simp add: erase_at_def)
  from i2 have dist: "distinct (A @ (take i ?X @ [(tn, ns)] @ drop (Suc i) ?X) @ B)"
    unfolding I2_def ab(1) using X by simp
  then have d': "distinct (index_ids (tabs (db s')))"
    and notin: "(tn, ns) \<notin> set (index_ids (tabs (db s')))"
    unfolding ab(2) E by auto
  have "set (index_ids (tabs (db s))) = insert (tn, ns) (set (index_ids (tabs (db s'))))"
    unfolding ab E by (subst X) auto
  with notin have sets: "set (index_ids (tabs (db s'))) = set (index_ids (tabs (db s))) - {(tn, ns)}"
    by auto
  have "I1 s'"
    using i1 by (simp add: I1_def st update_keys_present [OF tab])
  moreover have "I2 s'"
  proof -
    have "distinct (map fst (ihs s'))"
      using i2 by (simp add: I2_def st distinct_delete)
    moreover have "set (index_ids (tabs (db s'))) = set (map fst (ihs s'))"
      using i2 by (simp add: I2_def sets st(3) delete_keys)
    moreover have "list_all (\<lambda>e. snd e \<noteq> None) (ihs s')"
      using i2 by (simp add: I2_def st delete_filter list_all_iff)
    ultimately show ?thesis
      using d' by (simp add: I2_def)
  qed
  moreover have "ix_synced s'"
    using sy by (auto simp: ix_synced_def st delete_filter list_all_iff)
  ultimately show ?thesis by blast
qed

subsection \<open>create\_index\<close>

lemma index_columns_of_is_table:
  assumes "index_columns_of d tn ns [] = Inr cs" and "ns \<noteq> []"
  shows "is_table d tn"
proof (cases ns)
  case Nil
  with assms show ?thesis by simp
next
  case (Cons cn rest)
  with assms(1) show ?thesis
    by (cases "map_of (tabs d) tn") (simp_all add: get_table_def is_table_def)
qed

lemma create_index_inv:
  assumes i1: "I1 s" and i2: "I2 s" and sy: "ix_synced s"
    and ok: "create_index tn ns s = Inr s'" and ex: "is_table (db s) tn \<or> ns \<noteq> []"
  shows "I1 s' \<and> I2 s' \<and> ix_synced s'"
proof -
  from ok have ne: "\<not> ix_exists tn ns s"
    by (auto simp: create_index_def split: if_splits)
  with ok obtain cs where cs: "index_columns_of (db s) tn ns [] = Inr cs"
    by (cases "index_columns_of (db s) tn ns []") (simp_all add: create_index_def)
  from ex index_columns_of_is_table [OF cs] have "is_table (db s) tn"
    by blast
  then obtain tab where tab: "map_of (tabs (db s)) tn = Some tab"
    by (auto simp: is_table_def split: option.splits)
  then have gt: "get_table (db s) tn = Inr tab"
    by (simp add: get_table_def)
  from index_columns_of_names [OF cs gt] have names: "map col_name cs = ns"
    by simp
  then have key: "get_index_name_cols tn cs = (tn, ns)" "get_index_name tn ns = (tn, ns)"
    by (simp_all add: get_index_name_cols_def get_index_name_def)
  from ne have nofile: "(cwd (fsys s), (tn, ns)) \<notin> set (ix_files (fsys s))"
    by (simp add: ix_exists_def get_index_name_def)
  with sy have new: "(tn, ns) \<notin> set (map fst (ihs s))"
    by (auto simp: ix_synced_def list_all_iff)
  then have h_none: "map_of (ihs s) (tn, ns) = None"
    by (simp add: map_of_None_keys)
  note s' = ok [unfolded create_index_eq [OF ne cs tab], simplified, symmetric]
  have st: "tabs (db s') =
        AList.update tn (tab\<lparr>indexes := indexes tab @ [new_index_meta tn cs]\<rparr>) (tabs (db s))"
      "fhs s' = fhs s" "ihs s' = ihs s @ [((tn, ns), Some (IxIndexHandle (tn, ns)))]"
      "cwd (fsys s') = cwd (fsys s)"
      "set (ix_files (fsys s')) = insert (cwd (fsys s), (tn, ns)) (set (ix_files (fsys s)))"
    by (subst s', simp add: key emplace_absent [OF h_none])+
  let ?f = "\<lambda>im. get_index_name_cols tn (ix_cols im)"
  have "?f (new_index_meta tn cs) = (tn, ns)"
    by (simp add: new_index_meta_def add_col_lens_cols key)
  with index_ids_update [OF tab] obtain A B where
    ab: "index_ids (tabs (db s)) = A @ map ?f (indexes tab) @ B"
      "index_ids (tabs (db s')) = A @ (map ?f (indexes tab) @ [(tn, ns)]) @ B"
    unfolding st(1) by auto
  from i2 new have fresh_id: "(tn, ns) \<notin> set (index_ids (tabs (db s)))"
    by (simp add: I2_def)
  have "I1 s'"
    using i1 by (simp add: I1_def st update_keys_present [OF tab])
  moreover have "I2 s'"
  proof -
    have "distinct (index_ids (tabs (db s')))"
      using i2 fresh_id unfolding I2_def ab by auto
    moreover have "distinct (map fst (ihs s'))"
      using i2 new by (simp add: I2_def st)
    moreover have "set (index_ids (tabs (db s'))) = set (map fst (ihs s'))"
      using i2 unfolding I2_def ab st(3) by auto
    moreover have "list_all (\<lambda>e. snd e \<noteq> None) (ihs s')"
      using i2 by (simp add: I2_def st)
    ultimately show ?thesis
      by (simp add: I2_def)
  qed
  moreover have "ix_synced s'"
    using sy by (auto simp: ix_synced_def st list_all_iff)
  ultimately show ?thesis by blast
qed

subsection \<open>All four operations\<close>

lemma scenario_synced: "ix_synced shop_open"
  by (simp add: ix_synced_def shop_open_def)

text \<open>
  In a state where I1 and I2 hold and every registered index has its file, each
  of \<^verbatim>\<open>create_table\<close>, \<^verbatim>\<open>drop_table\<close>, the two \<^verbatim>\<open>drop_index\<close> and
  \<^verbatim>\<open>create_index\<close> that returns leaves a state where the three hold again;
  for \<^verbatim>\<open>create_index\<close>, when the table exists or a column is named.
\<close>

theorem invariants_preserved:
  assumes "I1 s" and "I2 s" and "ix_synced s"
  shows "(create_table tn col_defs s = Inr s' \<longrightarrow> I1 s' \<and> I2 s' \<and> ix_synced s') \<and>
         (drop_table tn s = Inr s' \<longrightarrow> I1 s' \<and> I2 s' \<and> ix_synced s') \<and>
         (drop_index tn ns s = Inr s' \<longrightarrow> I1 s' \<and> I2 s' \<and> ix_synced s') \<and>
         (drop_index_cols tn cs s = Inr s' \<longrightarrow> I1 s' \<and> I2 s' \<and> ix_synced s') \<and>
         (create_index tn ns s = Inr s' \<and> (is_table (db s) tn \<or> ns \<noteq> []) \<longrightarrow>
            I1 s' \<and> I2 s' \<and> ix_synced s')"
proof -
  have "drop_index_cols tn cs s = drop_index tn (map col_name cs) s"
    by (simp add: drop_index_cols_def drop_index_def get_index_name_cols_def
        ix_destroy_index_cols_def Let_def)
  then show ?thesis
    using create_table_inv [OF assms, of tn col_defs s'] drop_table_inv [OF assms, of tn s']
      drop_index_inv [OF assms, of tn ns s'] drop_index_inv [OF assms, of tn "map col_name cs" s']
      create_index_inv [OF assms, of tn ns s']
    by metis
qed

theorem invariants_preserved_witness:
  "I1 shop_open \<and> I2 shop_open \<and> ix_synced shop_open \<and>
   create_table ''orders'' orders_defs shop_open = Inr shop_orders \<and>
   I1 shop_orders \<and> I2 shop_orders \<and> ix_synced shop_orders \<and>
   (\<exists>s1. create_index ''orders'' [''id''] shop_orders = Inr s1 \<and> I1 s1 \<and> I2 s1 \<and> ix_synced s1 \<and>
      (\<exists>s2. drop_index ''orders'' [''id''] s1 = Inr s2 \<and> I1 s2 \<and> I2 s2 \<and> ix_synced s2) \<and>
      (\<exists>s3. drop_table ''orders'' s1 = Inr s3 \<and> I1 s3 \<and> I2 s3 \<and> ix_synced s3))"
proof -
  note a = scenario_I1 scenario_I2 scenario_synced
  from invariants_preserved [OF a, where tn = "''orders''" and col_defs = orders_defs and s' = shop_orders] scenario_create_table
  have b: "I1 shop_orders" "I2 shop_orders" "ix_synced shop_orders"
    by simp_all
  note c = create_index_eq [OF orders_no_index orders_id_columns orders_table]
  then obtain s1 where s1: "create_index ''orders'' [''id''] shop_orders = Inr s1"
    by blast
  from invariants_preserved [OF b, where tn = "''orders''" and ns = "[''id'']" and s' = s1] s1
  have d: "I1 s1" "I2 s1" "ix_synced s1"
    by simp_all
  have t1: "tabs (db s1) = [(''orders'', \<lparr>tab_name = ''orders'', cols = [id_col, total_col],
      indexes = [new_index_meta ''orders'' [id_col]]\<rparr>)]"
    "fhs s1 = [(''orders'', Some (RmFileHandle ''orders''))]"
    using s1 unfolding c by (auto simp: shop_orders_def orders_db_def)
  have n: "ix_cols (new_index_meta ''orders'' [id_col]) = [id_col]" "col_name id_col = ''id''"
    by (simp_all add: new_index_meta_def add_col_lens_cols id_col_def)
  obtain s2 where s2: "drop_index ''orders'' [''id''] s1 = Inr s2"
    by (simp add: drop_index_def erase_index_meta_def get_table_def get_index_meta_def t1 n
        case_prod_beta Let_def ix_close_index_def ix_destroy_index_def)
  obtain s3 where s3: "drop_table ''orders'' s1 = Inr s3"
    by (simp add: drop_table_def is_table_def t1 case_prod_beta Let_def)
  from invariants_preserved [OF d, where tn = "''orders''" and ns = "[''id'']" and s' = s2] s2
  have e: "I1 s2 \<and> I2 s2 \<and> ix_synced s2"
    by simp
  from invariants_preserved [OF d, where tn = "''orders''" and s' = s3] s3
  have f: "I1 s3 \<and> I2 s3 \<and> ix_synced s3"
    by simp
  from a b d e f s1 s2 s3 scenario_create_table show ?thesis
    by blast
qed

end
